theory Spec2Isabelle
  imports Main "HOL-Library.Sublist"
begin

section \<open>The Playwright bridge of \<^verbatim>\<open>src/Playwright/__init__.py\<close>\<close>

text \<open>
  The library class \<^verbatim>\<open>Playwright\<close> starts a node process lazily, waits until its gRPC
  endpoint answers a health probe, and then serves every keyword through a channel
  that the context manager \<^verbatim>\<open>insecure_stub\<close> opens for that one call.

  Everything the class does is an interaction with its surroundings (the logger, the
  operating system, gRPC). The embedding makes them explicit:
  \<^item> what the surroundings answer is an \<open>engine\<close>: for the k-th call of
    \<^verbatim>\<open>find_free_port\<close>, the k-th remote call and the k-th \<^verbatim>\<open>poll()\<close> it says
    what comes back. A theorem that holds for every engine holds for every behaviour
    of the node process;
  \<^item> what the class did is the \<open>trace\<close> of a \<open>world\<close>, a list of events in the
    order of their occurrence, with counters of the interactions so far;
  \<^item> the instance itself is a \<open>bridge\<close>: the attribute \<^verbatim>\<open>port\<close> and the slot in
    which \<^verbatim>\<open>cached_property\<close> keeps the value of \<^verbatim>\<open>_playwright_process\<close>;
  \<^item> an exception is a value of \<open>error\<close>, and a method returns
    \<open>(error + 'a) \<times> bridge \<times> world\<close>: the state is returned on a raise too,
    since what was assigned and done before the raise stays.

  Calls that the source expects to succeed and does not guard (opening the log file,
  \<^verbatim>\<open>find_free_port\<close>, creating the \<^verbatim>\<open>Popen\<close> object, creating and closing a channel,
  \<^verbatim>\<open>kill()\<close>) succeed in the model.
\<close>

subsection \<open>Strings\<close>

text \<open>
  A Python \<^verbatim>\<open>str\<close> is a sequence of code points; a \<open>string\<close> here is the list of its
  code points, for code points below 256. On that range \<^verbatim>\<open>str.lower\<close> moves A-Z
  and the upper-case letters U+00C0 to U+00DE (U+00D7, the multiplication sign, is no
  letter) by 32, and \<^verbatim>\<open>str.strip\<close> removes from both ends the code points for which
  \<^verbatim>\<open>isspace\<close> holds.
\<close>

definition isspace :: "char \<Rightarrow> bool" where
  "isspace c = (of_char c \<in> {9, 10, 11, 12, 13, 28, 29, 30, 31, 32, 133, 160 :: nat})"

definition lower_char :: "char \<Rightarrow> char" where
  "lower_char c =
     (let n = of_char c :: nat
      in if (65 \<le> n \<and> n \<le> 90) \<or> (192 \<le> n \<and> n \<le> 222 \<and> n \<noteq> 215)
         then char_of (n + 32) else c)"

definition lower :: "string \<Rightarrow> string" where
  "lower s = map lower_char s"

definition strip :: "string \<Rightarrow> string" where
  "strip s = rev (dropWhile isspace (rev (dropWhile isspace s)))"

fun join :: "string \<Rightarrow> string list \<Rightarrow> string" where
  "join sep [] = []"
| "join sep [x] = x"
| "join sep (x # y # ys) = x @ sep @ join sep (y # ys)"

text \<open>\<^verbatim>\<open>str(n)\<close> of a port number: its decimal digits.\<close>

fun str :: "nat \<Rightarrow> string" where
  "str n = (if n < 10 then [char_of (48 + n)]
            else str (n div 10) @ [char_of (48 + n mod 10)])"

declare str.simps [simp del]

text \<open>\<^verbatim>\<open>x or ""\<close> for an optional string: \<^verbatim>\<open>None\<close> and \<^verbatim>\<open>""\<close> are the falsy values.\<close>

definition or_empty :: "string option \<Rightarrow> string" where
  "or_empty x = (case x of None \<Rightarrow> [] | Some u \<Rightarrow> if u = [] then [] else u)"

text \<open>\<^verbatim>\<open>f"{self.port}"\<close>: the attribute is \<^verbatim>\<open>None\<close> until the process is started.\<close>

definition fmt_port :: "string option \<Rightarrow> string" where
  "fmt_port p = (case p of None \<Rightarrow> ''None'' | Some s \<Rightarrow> s)"

definition SUPPORTED_BROWSERS :: "string list" where
  "SUPPORTED_BROWSERS = [''chrome'', ''firefox'', ''webkit'']"

subsection \<open>Messages, events, state\<close>

text \<open>
  The request classes of \<^verbatim>\<open>Playwright.generated.playwright_pb2\<close>, with the fields
  the source sets by keyword, and the response, of which the source reads
  \<^verbatim>\<open>log\<close> and \<^verbatim>\<open>body\<close>. The arguments of \<open>openBrowserRequest\<close> are \<^verbatim>\<open>url\<close>
  and \<^verbatim>\<open>browser\<close>, those of \<open>inputTextRequest\<close> are \<^verbatim>\<open>input\<close> and
  \<^verbatim>\<open>selector\<close>, in this order.
\<close>

datatype message =
    Empty
  | openBrowserRequest string string
  | goToRequest string
  | inputTextRequest string string
  | selectorRequest string

datatype rpc =
    Health | OpenBrowser | CloseBrowser | GoTo | InputText | ClickButton
  | GetUrl | GetInputValue | GetTitle | GetTextContent

record response =
  log :: string
  body :: string

datatype error =
    ValueError string
  | RuntimeError string
  | ConnectionError string
  | AssertionError string
  | RpcError

datatype level = INFO | DEBUG

type_synonym pid = nat
type_synonym chan = nat

datatype event =
    Log level string
  | OpenLogfile
  | FindFreePort nat
  | Popen pid string
  | InsecureChannel chan string
  | ChannelClose chan
  | Rpc chan rpc message "response option"
  | Sleep
  | Poll pid "int option"
  | Kill pid

text \<open>
  The surroundings. \<open>reply E k m q\<close> is what the k-th remote call returns when it is
  method \<open>m\<close> with request \<open>q\<close>, \<open>None\<close> for \<^verbatim>\<open>grpc.RpcError\<close>; \<open>returncode E k\<close> is
  what the k-th \<^verbatim>\<open>poll()\<close> returns, \<open>None\<close> while the process runs. The text of a
  response (\<^verbatim>\<open>str\<close> of a generated protobuf class) and the path of the script are
  taken as given.
\<close>

record engine =
  free_port :: "nat \<Rightarrow> nat"
  reply :: "nat \<Rightarrow> rpc \<Rightarrow> message \<Rightarrow> response option"
  returncode :: "nat \<Rightarrow> int option"
  response_str :: "response \<Rightarrow> string"
  path_to_script :: string

record world =
  trace :: "event list"
  ports :: nat
  spawned :: nat
  channels :: nat
  rpcs :: nat
  polls :: nat

record bridge =
  port :: "string option"
  cached_process :: "pid option"

type_synonym state = "bridge \<times> world"
type_synonym 'a result = "(error + 'a) \<times> state"

text \<open>A new instance (\<^verbatim>\<open>__init__\<close> starts nothing) in a world where nothing has happened.\<close>

definition new_bridge :: bridge where
  "new_bridge = \<lparr>port = None, cached_process = None\<rparr>"

definition new_world :: world where
  "new_world = \<lparr>trace = [], ports = 0, spawned = 0, channels = 0, rpcs = 0, polls = 0\<rparr>"

definition emit :: "event \<Rightarrow> world \<Rightarrow> world" where
  "emit e w = w\<lparr>trace := trace w @ [e]\<rparr>"

definition logger_info :: "string \<Rightarrow> world \<Rightarrow> world" where
  "logger_info s w = emit (Log INFO s) w"

definition logger_debug :: "string \<Rightarrow> world \<Rightarrow> world" where
  "logger_debug s w = emit (Log DEBUG s) w"

definition find_free_port :: "engine \<Rightarrow> world \<Rightarrow> nat \<times> world" where
  "find_free_port E w =
     (let n = free_port E (ports w)
      in (n, (emit (FindFreePort n) w)\<lparr>ports := Suc (ports w)\<rparr>))"

definition popen :: "string \<Rightarrow> world \<Rightarrow> pid \<times> world" where
  "popen p w = (spawned w, (emit (Popen (spawned w) p) w)\<lparr>spawned := Suc (spawned w)\<rparr>)"

definition insecure_channel :: "string \<Rightarrow> world \<Rightarrow> chan \<times> world" where
  "insecure_channel target w =
     (channels w, (emit (InsecureChannel (channels w) target) w)\<lparr>channels := Suc (channels w)\<rparr>)"

definition channel_close :: "chan \<Rightarrow> world \<Rightarrow> world" where
  "channel_close c w = emit (ChannelClose c) w"

definition stub_call :: "engine \<Rightarrow> chan \<Rightarrow> rpc \<Rightarrow> message \<Rightarrow> world \<Rightarrow> response option \<times> world" where
  "stub_call E c m q w =
     (let r = reply E (rpcs w) m q
      in (r, (emit (Rpc c m q r) w)\<lparr>rpcs := Suc (rpcs w)\<rparr>))"

definition poll :: "engine \<Rightarrow> pid \<Rightarrow> world \<Rightarrow> int option \<times> world" where
  "poll E h w =
     (let r = returncode E (polls w)
      in (r, (emit (Poll h r) w)\<lparr>polls := Suc (polls w)\<rparr>))"

definition kill :: "pid \<Rightarrow> world \<Rightarrow> world" where
  "kill h w = emit (Kill h) w"

subsection \<open>\<^verbatim>\<open>_playwright_process\<close>\<close>

text \<open>
  The loop \<^verbatim>\<open>for i in range(50)\<close>, with the number of iterations left as its
  argument. Each iteration opens a channel in a \<^verbatim>\<open>with\<close> block, which closes it when
  the block is left: after the \<^verbatim>\<open>return\<close> as well as after the handler of
  \<^verbatim>\<open>grpc.RpcError\<close> has slept. The result says whether a probe was answered.
\<close>

fun health_loop :: "engine \<Rightarrow> nat \<Rightarrow> string option \<Rightarrow> world \<Rightarrow> bool \<times> world" where
  "health_loop E 0 p w = (False, w)"
| "health_loop E (Suc n) p w =
     (let (c, w1) = insecure_channel (''localhost:'' @ fmt_port p) w;
          (r, w2) = stub_call E c Health Empty w1
      in case r of
           Some resp \<Rightarrow>
             (True, channel_close c
                (logger_info (''Connected to the playwright process at port $'' @ fmt_port p
                              @ '': $'' @ response_str E resp) w2))
         | None \<Rightarrow> health_loop E n p (channel_close c (emit Sleep w2)))"

text \<open>
  The property is cached: when the slot is filled its value is returned and the
  function body does not run; the slot is filled only when the body returns.
\<close>

definition playwright_process :: "engine \<Rightarrow> state \<Rightarrow> pid result" where
  "playwright_process E s =
     (let (b, w) = s
      in case cached_process b of
           Some h \<Rightarrow> (Inr h, b, w)
         | None \<Rightarrow>
            (let w1 = logger_info (''Starting Playwright process '' @ path_to_script E) w;
                 w2 = emit OpenLogfile w1;
                 (n, w3) = find_free_port E w2;
                 b1 = b\<lparr>port := Some (str n)\<rparr>;
                 (h, w4) = popen (str n) w3;
                 (ok, w5) = health_loop E 50 (port b1) w4
             in if ok then (Inr h, b1\<lparr>cached_process := Some h\<rparr>, w5)
                else (Inl (RuntimeError (''Could not connect to the playwright process at port $''
                                         @ fmt_port (port b1))), b1, w5)))"

subsection \<open>\<^verbatim>\<open>_close\<close>\<close>

definition close :: "engine \<Rightarrow> state \<Rightarrow> unit result" where
  "close E s =
     (let (b, w) = s;
          w1 = logger_debug ''Closing Playwright process'' w
      in case playwright_process E (b, w1) of
           (Inl e, s2) \<Rightarrow> (Inl e, s2)
         | (Inr h, b2, w2) \<Rightarrow>
             (Inr (), b2, logger_debug ''Playwright process killed'' (kill h w2)))"

subsection \<open>\<^verbatim>\<open>insecure_stub\<close>\<close>

text \<open>
  The generator up to its \<^verbatim>\<open>yield\<close>: what \<^verbatim>\<open>with self.insecure_stub() as stub\<close>
  runs before the block. The stub is the channel it is bound to.
\<close>

definition insecure_stub_enter :: "engine \<Rightarrow> state \<Rightarrow> chan result" where
  "insecure_stub_enter E s =
     (case playwright_process E s of
        (Inl e, s1) \<Rightarrow> (Inl e, s1)
      | (Inr h, b1, w1) \<Rightarrow>
         (let (r, w2) = poll E h w1
          in case r of
               Some rc \<Rightarrow> (Inl (ConnectionError ''Playwright process has been terminated''), b1, w2)
             | None \<Rightarrow>
                (let (c, w3) = insecure_channel (''localhost:'' @ fmt_port (port b1)) w2
                 in (Inr c, b1, w3))))"

text \<open>
  Leaving the block. \<^verbatim>\<open>contextlib.contextmanager\<close> resumes the generator after the
  \<^verbatim>\<open>yield\<close> when the block ended normally, and \<^verbatim>\<open>channel.close()\<close> runs. When the
  block raised, the exception is thrown into the generator at the \<^verbatim>\<open>yield\<close>; no
  \<^verbatim>\<open>try\<close> surrounds it, so the generator ends there, the statement after the
  \<^verbatim>\<open>yield\<close> does not run, and the exception goes on to the caller.
\<close>

definition insecure_stub_exit :: "chan \<Rightarrow> 'a result \<Rightarrow> 'a result" where
  "insecure_stub_exit c r =
     (case r of
        (Inl e, s) \<Rightarrow> (Inl e, s)
      | (Inr v, b, w) \<Rightarrow> (Inr v, b, channel_close c w))"

definition insecure_stub :: "engine \<Rightarrow> (chan \<Rightarrow> state \<Rightarrow> 'a result) \<Rightarrow> state \<Rightarrow> 'a result" where
  "insecure_stub E block s =
     (case insecure_stub_enter E s of
        (Inl e, s1) \<Rightarrow> (Inl e, s1)
      | (Inr c, s1) \<Rightarrow> insecure_stub_exit c (block c s1))"

text \<open>A remote call inside a block: \<^verbatim>\<open>grpc.RpcError\<close> leaves the block.\<close>

definition call :: "engine \<Rightarrow> chan \<Rightarrow> rpc \<Rightarrow> message \<Rightarrow> state \<Rightarrow> response result" where
  "call E c m q s =
     (let (b, w) = s;
          (r, w1) = stub_call E c m q w
      in case r of None \<Rightarrow> (Inl RpcError, b, w1) | Some resp \<Rightarrow> (Inr resp, b, w1))"

text \<open>The block shared by the five control and input keywords: call, then log.\<close>

definition call_and_log :: "engine \<Rightarrow> rpc \<Rightarrow> message \<Rightarrow> chan \<Rightarrow> state \<Rightarrow> unit result" where
  "call_and_log E m q c s =
     (case call E c m q s of
        (Inl e, s1) \<Rightarrow> (Inl e, s1)
      | (Inr resp, b1, w1) \<Rightarrow> (Inr (), b1, logger_info (log resp) w1))"

subsection \<open>Keywords\<close>

definition open_browser :: "engine \<Rightarrow> string \<Rightarrow> string option \<Rightarrow> state \<Rightarrow> unit result" where
  "open_browser E browser url s =
     (let browser' = strip (lower browser)
      in if browser' \<notin> set SUPPORTED_BROWSERS
         then (Inl (ValueError (browser @ '' is not supported, ''
                                @ ''it should be one of: '' @ join '', '' SUPPORTED_BROWSERS)), s)
         else insecure_stub E
                (call_and_log E OpenBrowser (openBrowserRequest (or_empty url) browser')) s)"

text \<open>
  The defaults of the signature \<^verbatim>\<open>open_browser(self, browser="Chrome", url=None)\<close>:
  an argument that the caller leaves out is \<open>None\<close> here.
\<close>

definition open_browser_args :: "engine \<Rightarrow> string option \<Rightarrow> string option option \<Rightarrow> state \<Rightarrow> unit result" where
  "open_browser_args E browser url s =
     open_browser E (case browser of None \<Rightarrow> ''Chrome'' | Some x \<Rightarrow> x)
                    (case url of None \<Rightarrow> None | Some u \<Rightarrow> u) s"

definition close_browser :: "engine \<Rightarrow> state \<Rightarrow> unit result" where
  "close_browser E s = insecure_stub E (call_and_log E CloseBrowser Empty) s"

definition go_to :: "engine \<Rightarrow> string \<Rightarrow> state \<Rightarrow> unit result" where
  "go_to E u s = insecure_stub E (call_and_log E GoTo (goToRequest u)) s"

definition input_text :: "engine \<Rightarrow> string \<Rightarrow> string \<Rightarrow> state \<Rightarrow> unit result" where
  "input_text E sel text s =
     insecure_stub E (call_and_log E InputText (inputTextRequest text sel)) s"

definition click_button :: "engine \<Rightarrow> string \<Rightarrow> state \<Rightarrow> unit result" where
  "click_button E sel s = insecure_stub E (call_and_log E ClickButton (selectorRequest sel)) s"

definition location_should_be_block :: "engine \<Rightarrow> string \<Rightarrow> chan \<Rightarrow> state \<Rightarrow> unit result" where
  "location_should_be_block E u c s =
     (case call E c GetUrl Empty s of
        (Inl e, s1) \<Rightarrow> (Inl e, s1)
      | (Inr resp, s1) \<Rightarrow>
         (let page_url = body resp
          in if u \<noteq> page_url
             then (Inl (AssertionError (''URL should be `'' @ u @ ''`  but was `'' @ page_url @ ''`'')), s1)
             else (Inr (), s1)))"

definition location_should_be :: "engine \<Rightarrow> string \<Rightarrow> state \<Rightarrow> unit result" where
  "location_should_be E u s = insecure_stub E (location_should_be_block E u) s"

definition textfield_value_should_be_block ::
    "engine \<Rightarrow> string \<Rightarrow> string \<Rightarrow> chan \<Rightarrow> state \<Rightarrow> unit result" where
  "textfield_value_should_be_block E sel text c s =
     (case call E c GetInputValue (selectorRequest sel) s of
        (Inl e, s1) \<Rightarrow> (Inl e, s1)
      | (Inr resp, b1, w1) \<Rightarrow>
         (let w2 = logger_info (log resp) w1
          in if body resp \<noteq> text
             then (Inl (AssertionError (''Textfield '' @ sel @ '' content should be '' @ text
                                        @ '' but was `'' @ body resp @ ''`'')), b1, w2)
             else (Inr (), b1, w2)))"

definition textfield_value_should_be :: "engine \<Rightarrow> string \<Rightarrow> string \<Rightarrow> state \<Rightarrow> unit result" where
  "textfield_value_should_be E sel text s =
     insecure_stub E (textfield_value_should_be_block E sel text) s"

definition title_should_be_block :: "engine \<Rightarrow> string \<Rightarrow> chan \<Rightarrow> state \<Rightarrow> unit result" where
  "title_should_be_block E title c s =
     (case call E c GetTitle Empty s of
        (Inl e, s1) \<Rightarrow> (Inl e, s1)
      | (Inr resp, b1, w1) \<Rightarrow>
         (let w2 = logger_info (log resp) w1
          in if body resp \<noteq> title
             then (Inl (AssertionError (''Title should be '' @ title @ '' but was `''
                                        @ body resp @ ''`'')), b1, w2)
             else (Inr (), b1, w2)))"

definition title_should_be :: "engine \<Rightarrow> string \<Rightarrow> state \<Rightarrow> unit result" where
  "title_should_be E title s = insecure_stub E (title_should_be_block E title) s"

definition page_should_contain_block :: "engine \<Rightarrow> string \<Rightarrow> chan \<Rightarrow> state \<Rightarrow> unit result" where
  "page_should_contain_block E text c s =
     (case call E c GetTextContent (selectorRequest (''text='' @ text)) s of
        (Inl e, s1) \<Rightarrow> (Inl e, s1)
      | (Inr resp, b1, w1) \<Rightarrow>
         (let w2 = logger_info (log resp) w1
          in if body resp \<noteq> text
             then (Inl (AssertionError (''No element with text `'' @ text @ ''` on page'')), b1, w2)
             else (Inr (), b1, w2)))"

definition page_should_contain :: "engine \<Rightarrow> string \<Rightarrow> state \<Rightarrow> unit result" where
  "page_should_contain E text s = insecure_stub E (page_should_contain_block E text) s"

subsection \<open>Sequences of keyword calls\<close>

text \<open>
  Robot Framework keeps one instance of the library (\<^verbatim>\<open>ROBOT_LIBRARY_SCOPE = "GLOBAL"\<close>)
  and calls its methods one after the other; a keyword that raises fails its test
  step, and the next call finds the instance as the failed one left it.
\<close>

datatype keyword =
    Open_browser string "string option"
  | Close_browser
  | Go_to string
  | Input_text string string
  | Click_button string
  | Location_should_be string
  | Textfield_value_should_be string string
  | Title_should_be string
  | Page_should_contain string
  | Close

fun run :: "engine \<Rightarrow> keyword \<Rightarrow> state \<Rightarrow> unit result" where
  "run E (Open_browser b u) s = open_browser E b u s"
| "run E Close_browser s = close_browser E s"
| "run E (Go_to u) s = go_to E u s"
| "run E (Input_text sel text) s = input_text E sel text s"
| "run E (Click_button sel) s = click_button E sel s"
| "run E (Location_should_be u) s = location_should_be E u s"
| "run E (Textfield_value_should_be sel text) s = textfield_value_should_be E sel text s"
| "run E (Title_should_be t) s = title_should_be E t s"
| "run E (Page_should_contain text) s = page_should_contain E text s"
| "run E Close s = close E s"

fun run_all :: "engine \<Rightarrow> keyword list \<Rightarrow> state \<Rightarrow> state" where
  "run_all E [] s = s"
| "run_all E (k # ks) s = run_all E ks (snd (run E k s))"

text \<open>Whether a call reaches \<^verbatim>\<open>self._playwright_process\<close>.\<close>

fun needs_process :: "keyword \<Rightarrow> bool" where
  "needs_process (Open_browser b u) = (strip (lower b) \<in> set SUPPORTED_BROWSERS)"
| "needs_process k = True"

subsection \<open>Reading a trace\<close>

fun is_Popen :: "event \<Rightarrow> bool" where
  "is_Popen (Popen h p) = True"
| "is_Popen e = False"

fun is_Kill :: "event \<Rightarrow> bool" where
  "is_Kill (Kill h) = True"
| "is_Kill e = False"

text \<open>A health probe: a call of \<^verbatim>\<open>stub.Health\<close>.\<close>

fun is_probe :: "event \<Rightarrow> bool" where
  "is_probe (Rpc c Health q r) = True"
| "is_probe e = False"

text \<open>The events of the loop that waits for the process.\<close>

fun is_startup_event :: "event \<Rightarrow> bool" where
  "is_startup_event (InsecureChannel c t) = True"
| "is_startup_event (ChannelClose c) = True"
| "is_startup_event (Rpc c m q r) = (m = Health)"
| "is_startup_event Sleep = True"
| "is_startup_event (Log l s) = (l = INFO)"
| "is_startup_event e = False"

text \<open>The events of a call apart from the start of the process.\<close>

fun is_session_event :: "event \<Rightarrow> bool" where
  "is_session_event (Popen h p) = False"
| "is_session_event (FindFreePort n) = False"
| "is_session_event OpenLogfile = False"
| "is_session_event e = True"

text \<open>
  From \<open>s\<close> to \<open>s'\<close> nothing was started: the instance is the same, the trace has
  grown by session events, and no port was allocated and no process created.
\<close>

definition session_step :: "state \<Rightarrow> state \<Rightarrow> bool" where
  "session_step s s' =
     (fst s' = fst s \<and> ports (snd s') = ports (snd s) \<and> spawned (snd s') = spawned (snd s) \<and>
      prefix (trace (snd s)) (trace (snd s')) \<and>
      list_all is_session_event (drop (length (trace (snd s))) (trace (snd s'))))"

text \<open>
  The handle in the cache belongs to the process created last, and the port of the
  instance is the port that process was given.
\<close>

definition handle_inv :: "state \<Rightarrow> bool" where
  "handle_inv s =
     (case cached_process (fst s) of
        None \<Rightarrow> True
      | Some h \<Rightarrow>
         (case rev (filter is_Popen (trace (snd s))) of
            Popen h' p # es \<Rightarrow> h' = h \<and> port (fst s) = Some p
          | _ \<Rightarrow> False))"

definition popens :: "world \<Rightarrow> event list" where
  "popens w = filter is_Popen (trace w)"

definition probes :: "world \<Rightarrow> nat" where
  "probes w = length (filter is_probe (trace w))"

text \<open>How often channel \<open>c\<close> was closed.\<close>

definition closes :: "chan \<Rightarrow> world \<Rightarrow> nat" where
  "closes c w = count_list (trace w) (ChannelClose c)"

subsection \<open>Engines to run the model on\<close>

text \<open>
  An engine that answers every call with the body \<open>b\<close>, one that never answers, and
  one whose process has ended.
\<close>

definition mock_engine :: "string \<Rightarrow> engine" where
  "mock_engine b =
     \<lparr>free_port = (\<lambda>k. 7 + k),
      reply = (\<lambda>k m q. Some \<lparr>log = ''done'', body = b\<rparr>),
      returncode = (\<lambda>k. None),
      response_str = (\<lambda>r. log r),
      path_to_script = ''wrapper/index.js''\<rparr>"

definition silent_engine :: engine where
  "silent_engine = (mock_engine [])\<lparr>reply := (\<lambda>k m q. None)\<rparr>"

definition ended_engine :: engine where
  "ended_engine = (mock_engine [])\<lparr>returncode := (\<lambda>k. Some 1)\<rparr>"

text \<open>An engine that answers from its 51st call on: its first start times out.\<close>

definition late_engine :: engine where
  "late_engine =
     (mock_engine [])\<lparr>reply := (\<lambda>k m q. if k < 50 then None else Some \<lparr>log = ''done'', body = []\<rparr>)\<rparr>"

text \<open>The state after the first start against an engine that answers the first probe.\<close>

definition started_bridge :: bridge where
  "started_bridge = \<lparr>port = Some ''7'', cached_process = Some 0\<rparr>"

definition started_world :: world where
  "started_world =
     \<lparr>trace = [Log INFO ''Starting Playwright process wrapper/index.js'', OpenLogfile,
               FindFreePort 7, Popen 0 ''7'', InsecureChannel 0 ''localhost:7'',
               Rpc 0 Health Empty (Some \<lparr>log = ''done'', body = []\<rparr>),
               Log INFO ''Connected to the playwright process at port $7: $done'',
               ChannelClose 0],
      ports = 1, spawned = 1, channels = 1, rpcs = 1, polls = 0\<rparr>"

section \<open>Properties\<close>

subsection \<open>The primitives and the start of the process\<close>

lemma emit_simps [simp]:
  "trace (emit e w) = trace w @ [e]"
  "ports (emit e w) = ports w"
  "spawned (emit e w) = spawned w"
  "channels (emit e w) = channels w"
  "rpcs (emit e w) = rpcs w"
  "polls (emit e w) = polls w"
  by (simp_all add: emit_def)

lemmas prims =
  logger_info_def logger_debug_def find_free_port_def popen_def insecure_channel_def
  channel_close_def stub_call_def poll_def kill_def

lemma health_loop_frame:
  "health_loop E n p w = (ok, w') \<Longrightarrow>
     ports w' = ports w \<and> spawned w' = spawned w \<and> polls w' = polls w \<and>
     (\<exists>es. trace w' = trace w @ es \<and> (\<forall>e\<in>set es. is_startup_event e))"
proof (induction n arbitrary: w)
  case 0
  then show ?case by simp
next
  case (Suc n)
  show ?case
  proof (cases "reply E (rpcs w) Health Empty")
    case None
    with Suc.prems have
      "health_loop E n p
         (channel_close (channels w)
            (emit Sleep (snd (stub_call E (channels w) Health Empty
               (snd (insecure_channel (''localhost:'' @ fmt_port p) w)))))) = (ok, w')"
      by (simp add: prims Let_def)
    from Suc.IH [OF this] show ?thesis
      by (auto simp: prims Let_def)
  next
    case (Some resp)
    with Suc.prems show ?thesis
      by (auto simp: prims Let_def)
  qed
qed

lemma health_loop_probes:
  "health_loop E n p w = (ok, w') \<Longrightarrow>
     (ok \<longrightarrow> (\<exists>k<n. (\<forall>i<k. reply E (rpcs w + i) Health Empty = None) \<and>
                     reply E (rpcs w + k) Health Empty \<noteq> None \<and>
                     probes w' = probes w + Suc k \<and> rpcs w' = rpcs w + Suc k)) \<and>
     (\<not> ok \<longrightarrow> (\<forall>i<n. reply E (rpcs w + i) Health Empty = None) \<and>
                probes w' = probes w + n \<and> rpcs w' = rpcs w + n)"
proof (induction n arbitrary: w)
  case 0
  then show ?case by simp
next
  case (Suc n)
  show ?case
  proof (cases "reply E (rpcs w) Health Empty")
    case None
    let ?w2 = "channel_close (channels w)
            (emit Sleep (snd (stub_call E (channels w) Health Empty
               (snd (insecure_channel (''localhost:'' @ fmt_port p) w)))))"
    from None Suc.prems have run: "health_loop E n p ?w2 = (ok, w')"
      by (simp add: prims Let_def)
    have r: "rpcs ?w2 = Suc (rpcs w)" and q: "probes ?w2 = Suc (probes w)"
      by (simp_all add: prims Let_def probes_def)
    note IH = Suc.IH [OF run, unfolded r q]
    show ?thesis
    proof (cases ok)
      case True
      with IH obtain k where k: "k < n" "\<forall>i<k. reply E (Suc (rpcs w) + i) Health Empty = None"
        "reply E (Suc (rpcs w) + k) Health Empty \<noteq> None"
        "probes w' = Suc (probes w) + Suc k" "rpcs w' = Suc (rpcs w) + Suc k"
        by blast
      have "\<forall>i<Suc k. reply E (rpcs w + i) Health Empty = None"
      proof (intro allI impI)
        fix i assume "i < Suc k"
        then show "reply E (rpcs w + i) Health Empty = None"
          using k(2) None by (cases i) auto
      qed
      with k True show ?thesis
        by (intro conjI impI) (auto intro!: exI [of _ "Suc k"])
    next
      case False
      with IH have a: "\<forall>i<n. reply E (Suc (rpcs w) + i) Health Empty = None"
        and b: "probes w' = Suc (probes w) + n" "rpcs w' = Suc (rpcs w) + n"
        by auto
      have "\<forall>i<Suc n. reply E (rpcs w + i) Health Empty = None"
      proof (intro allI impI)
        fix i assume "i < Suc n"
        then show "reply E (rpcs w + i) Health Empty = None"
          using a None by (cases i) auto
      qed
      with b False show ?thesis by simp
    qed
  next
    case (Some resp)
    with Suc.prems have "ok" and "w' = channel_close (channels w)
                (logger_info (''Connected to the playwright process at port $'' @ fmt_port p
                              @ '': $'' @ response_str E resp) (snd (stub_call E (channels w) Health Empty
               (snd (insecure_channel (''localhost:'' @ fmt_port p) w)))))"
      by (auto simp: prims Let_def)
    with Some show ?thesis
      by (auto simp: prims Let_def probes_def intro!: exI [of _ 0])
  qed
qed

lemma playwright_process_cached:
  "cached_process b = Some h \<Longrightarrow> playwright_process E (b, w) = (Inr h, b, w)"
  by (simp add: playwright_process_def)

lemma playwright_process_start:
  assumes "cached_process b = None"
  shows "playwright_process E (b, w) =
     (let n = free_port E (ports w);
          w4 = w\<lparr>trace := trace w @ [Log INFO (''Starting Playwright process '' @ path_to_script E),
                                      OpenLogfile, FindFreePort n, Popen (spawned w) (str n)],
                 ports := Suc (ports w), spawned := Suc (spawned w)\<rparr>;
          (ok, w5) = health_loop E 50 (Some (str n)) w4
      in if ok then (Inr (spawned w), b\<lparr>port := Some (str n), cached_process := Some (spawned w)\<rparr>, w5)
         else (Inl (RuntimeError (''Could not connect to the playwright process at port $'' @ str n)),
               b\<lparr>port := Some (str n)\<rparr>, w5))"
  using assms
  by (cases w) (simp add: playwright_process_def prims Let_def emit_def fmt_port_def split: prod.splits)

subsection \<open>The wait for the process is bounded\<close>

text \<open>
  C3. When no process is cached, \<^verbatim>\<open>_playwright_process\<close> makes at most 50 health
  probes. Either one of the first 50 probes is answered: then the probes before it
  failed, no probe follows it, and the handle of the process just created is returned
  and cached. Or all 50 probes fail: then exactly 50 were made, the
  \<^verbatim>\<open>RuntimeError\<close> of the start that timed out is raised, and nothing is cached.
  \<open>playwright_process\<close> is a total function, so the loop ends in either case.
\<close>

theorem health_check_bounded:
  assumes "cached_process b = None"
  shows "case playwright_process E (b, w) of (r, b', w') \<Rightarrow>
           probes w' \<le> probes w + 50 \<and>
           ((\<exists>k<50. (\<forall>i<k. reply E (rpcs w + i) Health Empty = None) \<and>
                     reply E (rpcs w + k) Health Empty \<noteq> None \<and>
                     probes w' = probes w + Suc k \<and>
                     r = Inr (spawned w) \<and> cached_process b' = Some (spawned w))
            \<or> ((\<forall>i<50. reply E (rpcs w + i) Health Empty = None) \<and>
                probes w' = probes w + 50 \<and>
                r = Inl (RuntimeError (''Could not connect to the playwright process at port $''
                                       @ str (free_port E (ports w)))) \<and>
                cached_process b' = None))"
proof -
  let ?n = "free_port E (ports w)"
  let ?w4 = "w\<lparr>trace := trace w @ [Log INFO (''Starting Playwright process '' @ path_to_script E),
                                      OpenLogfile, FindFreePort ?n, Popen (spawned w) (str ?n)],
                 ports := Suc (ports w), spawned := Suc (spawned w)\<rparr>"
  obtain ok w5 where loop: "health_loop E 50 (Some (str ?n)) ?w4 = (ok, w5)"
    by (cases "health_loop E 50 (Some (str ?n)) ?w4")
  have same: "probes ?w4 = probes w" "rpcs ?w4 = rpcs w"
    by (simp_all add: probes_def)
  note facts = health_loop_probes [OF loop, unfolded same]
  have run: "playwright_process E (b, w) =
      (if ok then (Inr (spawned w), b\<lparr>port := Some (str ?n), cached_process := Some (spawned w)\<rparr>, w5)
       else (Inl (RuntimeError (''Could not connect to the playwright process at port $'' @ str ?n)),
             b\<lparr>port := Some (str ?n)\<rparr>, w5))"
    unfolding playwright_process_start [OF assms] Let_def loop by simp
  show ?thesis
  proof (cases ok)
    case True
    with facts obtain k where "k < 50" "\<forall>i<k. reply E (rpcs w + i) Health Empty = None"
      "reply E (rpcs w + k) Health Empty \<noteq> None" "probes w5 = probes w + Suc k"
      by blast
    with True run show ?thesis
      by auto
  next
    case False
    with facts run assms show ?thesis
      by simp
  qed
qed

text \<open>Against an engine that never answers, the fiftieth probe is the last.\<close>

theorem health_check_bounded_witness:
  "cached_process new_bridge = None \<and>
   fst (playwright_process silent_engine (new_bridge, new_world))
     = Inl (RuntimeError ''Could not connect to the playwright process at port $7'') \<and>
   probes (snd (snd (playwright_process silent_engine (new_bridge, new_world)))) = 50"
proof -
  have h: "cached_process new_bridge = None"
    by (simp add: new_bridge_def)
  have s: "str 7 = ''7''"
    by (simp add: str.simps) code_simp
  show ?thesis
    using h health_check_bounded [OF h, of new_world silent_engine]
    by (auto simp: silent_engine_def mock_engine_def new_world_def probes_def s split: prod.splits)
qed

subsection \<open>Sessions\<close>

lemma health_loop_answered:
  assumes "reply E (rpcs w) Health Empty = Some resp" and "0 < n"
  shows "health_loop E n p w =
     (True, w\<lparr>trace := trace w @
                 [InsecureChannel (channels w) (''localhost:'' @ fmt_port p),
                  Rpc (channels w) Health Empty (Some resp),
                  Log INFO (''Connected to the playwright process at port $'' @ fmt_port p
                            @ '': $'' @ response_str E resp),
                  ChannelClose (channels w)],
               channels := Suc (channels w), rpcs := Suc (rpcs w)\<rparr>)"
proof -
  from assms(2) obtain m where "n = Suc m"
    by (cases n) auto
  with assms(1) show ?thesis
    by (cases w) (simp add: prims emit_def Let_def)
qed

lemma str_7: "str 7 = ''7''"
  by (simp add: str.simps) code_simp

lemma first_start:
  "playwright_process (mock_engine []) (new_bridge, new_world) = (Inr 0, started_bridge, started_world)"
proof -
  have c: "cached_process new_bridge = None"
    by (simp add: new_bridge_def)
  have r: "reply (mock_engine []) k Health Empty = Some \<lparr>log = ''done'', body = []\<rparr>" for k
    by (simp add: mock_engine_def)
  show ?thesis
    unfolding playwright_process_start [OF c] Let_def
    by (simp add: health_loop_answered [OF r] new_world_def new_bridge_def started_bridge_def
        started_world_def str_7 fmt_port_def)
      (simp add: mock_engine_def str_7)
qed

lemma insecure_stub_entered:
  "insecure_stub_enter E s = (Inr c, s1) \<Longrightarrow> insecure_stub E block s = insecure_stub_exit c (block c s1)"
  by (simp add: insecure_stub_def)

lemma insecure_stub_not_entered:
  "insecure_stub_enter E s = (Inl e, s1) \<Longrightarrow> insecure_stub E block s = (Inl e, s1)"
  by (simp add: insecure_stub_def)

lemma call_answer:
  "call E c m q (b, w) =
     (case reply E (rpcs w) m q of None \<Rightarrow> Inl RpcError | Some resp \<Rightarrow> Inr resp,
      b, w\<lparr>trace := trace w @ [Rpc c m q (reply E (rpcs w) m q)], rpcs := Suc (rpcs w)\<rparr>)"
  by (cases w) (simp add: call_def prims emit_def Let_def split: option.splits)

lemma insecure_stub_enter_alive:
  assumes "cached_process b = Some h" and "returncode E (polls w) = None"
  shows "insecure_stub_enter E (b, w) =
     (Inr (channels w), b,
      w\<lparr>trace := trace w @ [Poll h None,
                                InsecureChannel (channels w) (''localhost:'' @ fmt_port (port b))],
         polls := Suc (polls w), channels := Suc (channels w)\<rparr>)"
  using assms
  by (cases w)
    (simp add: insecure_stub_enter_def playwright_process_cached prims emit_def Let_def)

lemma insecure_stub_enter_ended:
  assumes "cached_process b = Some h" and "returncode E (polls w) = Some rc"
  shows "insecure_stub_enter E (b, w) =
     (Inl (ConnectionError ''Playwright process has been terminated''), b,
      w\<lparr>trace := trace w @ [Poll h (Some rc)], polls := Suc (polls w)\<rparr>)"
  using assms
  by (cases w)
    (simp add: insecure_stub_enter_def playwright_process_cached prims emit_def Let_def)

lemma started_enter:
  "insecure_stub_enter (mock_engine x) (started_bridge, started_world) =
     (Inr 1, started_bridge,
      started_world\<lparr>trace := trace started_world @ [Poll 0 None, InsecureChannel 1 ''localhost:7''],
                    polls := 1, channels := 2\<rparr>)"
proof -
  have "cached_process started_bridge = Some 0"
    by (simp add: started_bridge_def)
  moreover have "returncode (mock_engine x) (polls started_world) = None"
    by (simp add: mock_engine_def)
  ultimately show ?thesis
    by (simp add: insecure_stub_enter_alive started_bridge_def started_world_def fmt_port_def)
qed

lemma call_and_log_session:
  assumes "insecure_stub_enter E s = (Inr c, b1, w1)"
  shows "insecure_stub E (call_and_log E m q) s =
     (case reply E (rpcs w1) m q of
        None \<Rightarrow> (Inl RpcError, b1,
                 w1\<lparr>trace := trace w1 @ [Rpc c m q None], rpcs := Suc (rpcs w1)\<rparr>)
      | Some resp \<Rightarrow> (Inr (), b1,
                 w1\<lparr>trace := trace w1 @ [Rpc c m q (Some resp), Log INFO (log resp), ChannelClose c],
                    rpcs := Suc (rpcs w1)\<rparr>))"
  by (cases w1)
    (simp add: insecure_stub_entered [OF assms] call_and_log_def call_answer insecure_stub_exit_def
      channel_close_def logger_info_def emit_def split: option.splits)

lemma location_should_be_answered:
  assumes "insecure_stub_enter E s = (Inr c, b1, w1)"
      and "reply E (rpcs w1) GetUrl Empty = Some resp"
  shows "location_should_be E u s =
     (if u \<noteq> body resp
      then (Inl (AssertionError (''URL should be `'' @ u @ ''`  but was `'' @ body resp @ ''`'')), b1,
            w1\<lparr>trace := trace w1 @ [Rpc c GetUrl Empty (Some resp)], rpcs := Suc (rpcs w1)\<rparr>)
      else (Inr (), b1,
            w1\<lparr>trace := trace w1 @ [Rpc c GetUrl Empty (Some resp), ChannelClose c],
               rpcs := Suc (rpcs w1)\<rparr>))"
  using assms(2)
  by (cases w1)
    (simp add: location_should_be_def insecure_stub_entered [OF assms(1)]
      location_should_be_block_def call_answer insecure_stub_exit_def Let_def
      channel_close_def emit_def)

text \<open>
  C5. With a process in the cache, \<^verbatim>\<open>insecure_stub\<close> asks \<^verbatim>\<open>poll()\<close> first. When the
  process has ended it raises \<^verbatim>\<open>ConnectionError\<close> and the poll is all that
  happened: no channel was opened and no remote call made. When the process runs, it
  opens one new channel whose target is \<^verbatim>\<open>localhost:\<close> followed by the port of the
  instance (by \<^verbatim>\<open>None\<close> if the attribute were not set), and yields the stub of that
  channel; the instance is unchanged.
\<close>

theorem insecure_stub_enter_started:
  assumes "cached_process b = Some h"
  shows "(returncode E (polls w) \<noteq> None \<longrightarrow>
            insecure_stub_enter E (b, w) =
              (Inl (ConnectionError ''Playwright process has been terminated''), b,
               w\<lparr>trace := trace w @ [Poll h (returncode E (polls w))], polls := Suc (polls w)\<rparr>))
       \<and> (returncode E (polls w) = None \<longrightarrow>
            insecure_stub_enter E (b, w) =
              (Inr (channels w), b,
               w\<lparr>trace := trace w @
                    [Poll h None,
                     InsecureChannel (channels w)
                       (''localhost:'' @ (case port b of None \<Rightarrow> ''None'' | Some p \<Rightarrow> p))],
                 polls := Suc (polls w), channels := Suc (channels w)\<rparr>))"
  using assms
  by (cases w)
    (auto simp: insecure_stub_enter_def playwright_process_cached prims emit_def Let_def fmt_port_def)

text \<open>
  Both cases in full, on the state after a first start on port 7: the poll alone, and
  the poll followed by the channel to \<^verbatim>\<open>localhost:7\<close>.
\<close>

theorem insecure_stub_enter_started_witness:
  "cached_process started_bridge = Some 0 \<and>
   port started_bridge = Some ''7'' \<and>
   returncode ended_engine (polls started_world) = Some 1 \<and>
   returncode (mock_engine []) (polls started_world) = None \<and>
   insecure_stub_enter ended_engine (started_bridge, started_world) =
     (Inl (ConnectionError ''Playwright process has been terminated''), started_bridge,
      started_world\<lparr>trace := trace started_world @ [Poll 0 (Some 1)], polls := 1\<rparr>) \<and>
   insecure_stub_enter (mock_engine []) (started_bridge, started_world) =
     (Inr 1, started_bridge,
      started_world\<lparr>trace := trace started_world @ [Poll 0 None, InsecureChannel 1 ''localhost:7''],
                    polls := 1, channels := 2\<rparr>)"
proof -
  have h: "cached_process started_bridge = Some 0"
    by (simp add: started_bridge_def)
  have p: "port started_bridge = Some ''7''"
    by (simp add: started_bridge_def)
  have e: "returncode ended_engine (polls started_world) = Some 1"
    by (simp add: ended_engine_def)
  have a: "returncode (mock_engine []) (polls started_world) = None"
    by (simp add: mock_engine_def)
  have c: "polls started_world = 0" "channels started_world = 1"
    by (simp_all add: started_world_def)
  show ?thesis
    using h p e a insecure_stub_enter_started [OF h, of ended_engine started_world]
      insecure_stub_enter_started [OF h, of "mock_engine []" started_world]
    by (simp add: c)
qed

subsection \<open>Assertions\<close>

text \<open>
  C6. Once the session is open and the call of \<^verbatim>\<open>GetUrl\<close> is answered,
  \<^verbatim>\<open>location_should_be\<close> returns normally exactly when the body of the answer is the
  expected url. Otherwise it raises \<^verbatim>\<open>AssertionError\<close> with a message in which both
  the expected and the observed url occur as they are.
\<close>

theorem location_should_be_outcome:
  assumes "insecure_stub_enter E s = (Inr c, b1, w1)"
      and "reply E (rpcs w1) GetUrl Empty = Some resp"
  shows "(fst (location_should_be E u s) = Inr () \<longleftrightarrow> body resp = u) \<and>
         (body resp \<noteq> u \<longrightarrow>
            fst (location_should_be E u s)
              = Inl (AssertionError (''URL should be `'' @ u @ ''`  but was `'' @ body resp @ ''`'')) \<and>
            sublist u (''URL should be `'' @ u @ ''`  but was `'' @ body resp @ ''`'') \<and>
            sublist (body resp) (''URL should be `'' @ u @ ''`  but was `'' @ body resp @ ''`''))"
proof -
  have "sublist (body resp) ((''URL should be `'' @ u @ ''`  but was `'') @ body resp @ ''`'')"
    by (rule sublist_appendI)
  then have 1: "sublist (body resp) (''URL should be `'' @ u @ ''`  but was `'' @ body resp @ ''`'')"
    by simp
  have 2: "sublist u (''URL should be `'' @ u @ ''`  but was `'' @ body resp @ ''`'')"
    by (rule sublist_appendI)
  have 3: "fst (location_should_be E u s) = Inr () \<longleftrightarrow> body resp = u"
    by (auto simp: location_should_be_answered [OF assms])
  have 4: "body resp \<noteq> u \<Longrightarrow> fst (location_should_be E u s)
              = Inl (AssertionError (''URL should be `'' @ u @ ''`  but was `'' @ body resp @ ''`''))"
    by (auto simp: location_should_be_answered [OF assms])
  from 1 2 3 4 show ?thesis
    by blast
qed

text \<open>The two runs of the specification's example.\<close>

theorem location_should_be_outcome_witness:
  "fst (insecure_stub_enter (mock_engine ''https://other.com'') (started_bridge, started_world)) = Inr 1 \<and>
   fst (location_should_be (mock_engine ''https://example.com'') ''https://example.com''
          (started_bridge, started_world)) = Inr () \<and>
   fst (location_should_be (mock_engine ''https://other.com'') ''https://example.com''
          (started_bridge, started_world))
     = Inl (AssertionError ''URL should be `https://example.com`  but was `https://other.com`'')"
proof -
  have r: "reply (mock_engine x) k GetUrl Empty = Some \<lparr>log = ''done'', body = x\<rparr>" for x k
    by (simp add: mock_engine_def)
  show ?thesis
    using location_should_be_outcome [OF started_enter r, of "''https://example.com''" "''https://example.com''"]
      location_should_be_outcome [OF started_enter r, of "''https://other.com''" "''https://example.com''"]
    by (simp add: started_enter)
qed

subsection \<open>Opening a browser\<close>

text \<open>
  C2. When the lower-cased and stripped name is one of chrome, firefox and webkit,
  \<^verbatim>\<open>open_browser\<close> enters a session; if that fails, so does the keyword, and if it
  succeeds the next event is the call of \<^verbatim>\<open>OpenBrowser\<close> whose request has that
  canonical name as its browser (and \<^verbatim>\<open>url or ""\<close> as its url). For any other name it
  raises \<^verbatim>\<open>ValueError\<close> with a message that lists the three names, and the state
  is the one it was called in: no event at all, so no remote call, and the process is
  not started.
\<close>

theorem open_browser_validation:
  "set SUPPORTED_BROWSERS = {''chrome'', ''firefox'', ''webkit''} \<and>
   (strip (lower browser) \<in> set SUPPORTED_BROWSERS \<longrightarrow>
      (\<forall>e s1. insecure_stub_enter E s = (Inl e, s1) \<longrightarrow> open_browser E browser url s = (Inl e, s1)) \<and>
      (\<forall>c b1 w1. insecure_stub_enter E s = (Inr c, b1, w1) \<longrightarrow>
         trace (snd (snd (open_browser E browser url s))) =
           trace w1 @
           Rpc c OpenBrowser (openBrowserRequest (or_empty url) (strip (lower browser)))
             (reply E (rpcs w1) OpenBrowser (openBrowserRequest (or_empty url) (strip (lower browser)))) #
           (case reply E (rpcs w1) OpenBrowser (openBrowserRequest (or_empty url) (strip (lower browser))) of
              None \<Rightarrow> [] | Some resp \<Rightarrow> [Log INFO (log resp), ChannelClose c]))) \<and>
   (strip (lower browser) \<notin> set SUPPORTED_BROWSERS \<longrightarrow>
      open_browser E browser url s =
        (Inl (ValueError (browser @ '' is not supported, it should be one of: chrome, firefox, webkit'')), s))"
proof (intro conjI impI allI)
  show "set SUPPORTED_BROWSERS = {''chrome'', ''firefox'', ''webkit''}"
    by (simp add: SUPPORTED_BROWSERS_def)
next
  fix e s1
  assume "strip (lower browser) \<in> set SUPPORTED_BROWSERS" "insecure_stub_enter E s = (Inl e, s1)"
  then show "open_browser E browser url s = (Inl e, s1)"
    by (simp add: open_browser_def Let_def insecure_stub_not_entered)
next
  fix c b1 w1
  assume "strip (lower browser) \<in> set SUPPORTED_BROWSERS" "insecure_stub_enter E s = (Inr c, b1, w1)"
  then show "trace (snd (snd (open_browser E browser url s))) =
           trace w1 @
           Rpc c OpenBrowser (openBrowserRequest (or_empty url) (strip (lower browser)))
             (reply E (rpcs w1) OpenBrowser (openBrowserRequest (or_empty url) (strip (lower browser)))) #
           (case reply E (rpcs w1) OpenBrowser (openBrowserRequest (or_empty url) (strip (lower browser))) of
              None \<Rightarrow> [] | Some resp \<Rightarrow> [Log INFO (log resp), ChannelClose c])"
    by (simp add: open_browser_def Let_def call_and_log_session split: option.splits)
next
  assume "strip (lower browser) \<notin> set SUPPORTED_BROWSERS"
  then show "open_browser E browser url s =
        (Inl (ValueError (browser @ '' is not supported, it should be one of: chrome, firefox, webkit'')), s)"
    by (simp add: open_browser_def Let_def SUPPORTED_BROWSERS_def)
qed

text \<open>A name in mixed case with blanks around it, and a name that is not supported.\<close>

theorem open_browser_validation_witness:
  "strip (lower '' FireFox '') = ''firefox'' \<and>
   trace (snd (snd (open_browser (mock_engine []) '' FireFox '' None (started_bridge, started_world)))) =
     trace started_world @
     [Poll 0 None, InsecureChannel 1 ''localhost:7'',
      Rpc 1 OpenBrowser (openBrowserRequest [] ''firefox'') (Some \<lparr>log = ''done'', body = []\<rparr>),
      Log INFO ''done'', ChannelClose 1] \<and>
   open_browser (mock_engine []) ''IE'' None (new_bridge, new_world) =
     (Inl (ValueError ''IE is not supported, it should be one of: chrome, firefox, webkit''),
      new_bridge, new_world)"
proof -
  have a: "strip (lower '' FireFox '') = ''firefox''"
    by code_simp
  have b: "strip (lower ''IE'') = ''ie''"
    by code_simp
  show ?thesis
    using open_browser_validation [of "'' FireFox ''" "mock_engine []" "(started_bridge, started_world)" None]
      open_browser_validation [of "''IE''" "mock_engine []" "(new_bridge, new_world)" None]
    by (simp add: a b started_enter SUPPORTED_BROWSERS_def or_empty_def)
      (simp add: mock_engine_def)
qed

subsection \<open>The page contains a text\<close>

lemma page_should_contain_session:
  assumes "insecure_stub_enter E s = (Inr c, b1, w1)"
  shows "page_should_contain E text s =
     (case reply E (rpcs w1) GetTextContent (selectorRequest (''text='' @ text)) of
        None \<Rightarrow>
          (Inl RpcError, b1,
           w1\<lparr>trace := trace w1 @ [Rpc c GetTextContent (selectorRequest (''text='' @ text)) None],
              rpcs := Suc (rpcs w1)\<rparr>)
      | Some resp \<Rightarrow>
          if body resp \<noteq> text
          then (Inl (AssertionError (''No element with text `'' @ text @ ''` on page'')), b1,
                w1\<lparr>trace := trace w1 @ [Rpc c GetTextContent (selectorRequest (''text='' @ text)) (Some resp),
                                          Log INFO (log resp)],
                   rpcs := Suc (rpcs w1)\<rparr>)
          else (Inr (), b1,
                w1\<lparr>trace := trace w1 @ [Rpc c GetTextContent (selectorRequest (''text='' @ text)) (Some resp),
                                          Log INFO (log resp), ChannelClose c],
                   rpcs := Suc (rpcs w1)\<rparr>))"
  by (cases w1)
    (simp add: page_should_contain_def insecure_stub_entered [OF assms]
      page_should_contain_block_def call_answer insecure_stub_exit_def Let_def
      channel_close_def logger_info_def emit_def split: option.splits)

text \<open>
  C7. Once the session is open, the first thing \<^verbatim>\<open>page_should_contain\<close> does is the
  call of \<^verbatim>\<open>GetTextContent\<close> with the selector \<^verbatim>\<open>"text="\<close> followed by the expected
  text. When the call is answered, the keyword returns normally exactly when the body
  of the answer is the expected text, and otherwise raises \<^verbatim>\<open>AssertionError\<close> with
  the message that no element with that text is on the page.
\<close>

theorem page_should_contain_outcome:
  assumes "insecure_stub_enter E s = (Inr c, b1, w1)"
  shows "trace (snd (snd (page_should_contain E text s))) =
           trace w1 @
           Rpc c GetTextContent (selectorRequest (''text='' @ text))
             (reply E (rpcs w1) GetTextContent (selectorRequest (''text='' @ text))) #
           (case reply E (rpcs w1) GetTextContent (selectorRequest (''text='' @ text)) of
              None \<Rightarrow> []
            | Some resp \<Rightarrow> Log INFO (log resp) # (if body resp = text then [ChannelClose c] else [])) \<and>
         (\<forall>resp. reply E (rpcs w1) GetTextContent (selectorRequest (''text='' @ text)) = Some resp \<longrightarrow>
            (fst (page_should_contain E text s) = Inr () \<longleftrightarrow> body resp = text) \<and>
            (body resp \<noteq> text \<longrightarrow>
               fst (page_should_contain E text s)
                 = Inl (AssertionError (''No element with text `'' @ text @ ''` on page'')) \<and>
               sublist text (''No element with text `'' @ text @ ''` on page'')))"
proof -
  have "sublist text (''No element with text `'' @ text @ ''` on page'')"
    by (rule sublist_appendI)
  then show ?thesis
    by (auto simp: page_should_contain_session [OF assms] split: option.splits)
qed

text \<open>The example of the specification: the text \<^verbatim>\<open>Login\<close>, found and not found.\<close>

theorem page_should_contain_outcome_witness:
  "fst (insecure_stub_enter (mock_engine ''Login'') (started_bridge, started_world)) = Inr 1 \<and>
   trace (snd (snd (page_should_contain (mock_engine ''Login'') ''Login'' (started_bridge, started_world))))
     = trace started_world @ [Poll 0 None, InsecureChannel 1 ''localhost:7'',
         Rpc 1 GetTextContent (selectorRequest ''text=Login'') (Some \<lparr>log = ''done'', body = ''Login''\<rparr>),
         Log INFO ''done'', ChannelClose 1] \<and>
   fst (page_should_contain (mock_engine ''Login'') ''Login'' (started_bridge, started_world)) = Inr () \<and>
   fst (page_should_contain (mock_engine ''Logout'') ''Login'' (started_bridge, started_world))
     = Inl (AssertionError ''No element with text `Login` on page'')"
proof -
  have r: "reply (mock_engine x) k m q = Some \<lparr>log = ''done'', body = x\<rparr>" for x k m q
    by (simp add: mock_engine_def)
  show ?thesis
    using page_should_contain_outcome [OF started_enter, of "''Login''" "''Login''"]
      page_should_contain_outcome [OF started_enter, of "''Logout''" "''Login''"]
    by (simp add: r started_enter)
qed

subsection \<open>The defaults of \<^verbatim>\<open>open_browser\<close>\<close>

text \<open>
  C10. Called without a browser, \<^verbatim>\<open>open_browser\<close> takes \<^verbatim>\<open>"Chrome"\<close>, whose
  lower-cased and stripped form \<^verbatim>\<open>"chrome"\<close> is supported; and when the url is left
  out, is \<^verbatim>\<open>None\<close> or is the empty string, the request of the call of
  \<^verbatim>\<open>OpenBrowser\<close> has the empty string as its url (and \<^verbatim>\<open>"chrome"\<close> as its browser).
\<close>

theorem open_browser_defaults:
  "strip (lower ''Chrome'') = ''chrome'' \<and> ''chrome'' \<in> set SUPPORTED_BROWSERS \<and>
   (\<forall>c b1 w1. insecure_stub_enter E s = (Inr c, b1, w1) \<longrightarrow>
      u \<in> {None, Some None, Some (Some [])} \<longrightarrow>
        trace (snd (snd (open_browser_args E None u s))) =
          trace w1 @
          Rpc c OpenBrowser (openBrowserRequest [] ''chrome'')
            (reply E (rpcs w1) OpenBrowser (openBrowserRequest [] ''chrome'')) #
          (case reply E (rpcs w1) OpenBrowser (openBrowserRequest [] ''chrome'') of
             None \<Rightarrow> [] | Some resp \<Rightarrow> [Log INFO (log resp), ChannelClose c]))"
proof -
  have a: "strip (lower ''Chrome'') = ''chrome''"
    by code_simp
  have b: "''chrome'' \<in> set SUPPORTED_BROWSERS"
    by (simp add: SUPPORTED_BROWSERS_def)
  have "trace (snd (snd (open_browser_args E None u s))) =
          trace w1 @
          Rpc c OpenBrowser (openBrowserRequest [] ''chrome'')
            (reply E (rpcs w1) OpenBrowser (openBrowserRequest [] ''chrome'')) #
          (case reply E (rpcs w1) OpenBrowser (openBrowserRequest [] ''chrome'') of
             None \<Rightarrow> [] | Some resp \<Rightarrow> [Log INFO (log resp), ChannelClose c])"
    if "insecure_stub_enter E s = (Inr c, b1, w1)" and "u \<in> {None, Some None, Some (Some [])}"
    for c b1 w1
  proof -
    from that(2) have "or_empty (case u of None \<Rightarrow> None | Some x \<Rightarrow> x) = []"
      by (auto simp: or_empty_def)
    then show ?thesis
      using b by (simp add: open_browser_args_def open_browser_def a Let_def
          call_and_log_session [OF that(1)] split: option.splits)
  qed
  with a b show ?thesis
    by blast
qed

text \<open>The call without arguments, on the state after a first start.\<close>

theorem open_browser_defaults_witness:
  "fst (insecure_stub_enter (mock_engine []) (started_bridge, started_world)) = Inr 1 \<and>
   trace (snd (snd (open_browser_args (mock_engine []) None None (started_bridge, started_world))))
     = trace started_world @
       [Poll 0 None, InsecureChannel 1 ''localhost:7'',
        Rpc 1 OpenBrowser (openBrowserRequest [] ''chrome'') (Some \<lparr>log = ''done'', body = []\<rparr>),
        Log INFO ''done'', ChannelClose 1]"
proof -
  have r: "reply (mock_engine x) k m q = Some \<lparr>log = ''done'', body = x\<rparr>" for x k m q
    by (simp add: mock_engine_def)
  show ?thesis
    using open_browser_defaults [of "mock_engine []" "(started_bridge, started_world)" None]
    by (simp add: started_enter r)
qed

subsection \<open>A keyword that raises inside its session\<close>

text \<open>
  C1. The claim is that the channel of a keyword call is closed exactly once on every
  way out. The model follows the source, where \<^verbatim>\<open>channel.close()\<close> stands after the
  \<^verbatim>\<open>yield\<close> without a \<^verbatim>\<open>try\<close>, and here it is run on two calls that raise
  inside the block: \<^verbatim>\<open>location_should_be\<close> when the page has another url, and
  \<^verbatim>\<open>close_browser\<close> when the remote call fails. In both, channel 1 is opened for
  the call, the error reaches the caller, and the trace ends with the remote call:
  channel 1 is closed zero times.
\<close>

theorem failing_keyword_leaves_channel_open:
  "fst (location_should_be (mock_engine ''https://other.com'') ''https://example.com''
          (started_bridge, started_world))
     = Inl (AssertionError ''URL should be `https://example.com`  but was `https://other.com`'') \<and>
   trace (snd (snd (location_should_be (mock_engine ''https://other.com'') ''https://example.com''
          (started_bridge, started_world))))
     = trace started_world @
       [Poll 0 None, InsecureChannel 1 ''localhost:7'',
        Rpc 1 GetUrl Empty (Some \<lparr>log = ''done'', body = ''https://other.com''\<rparr>)] \<and>
   closes 1 (snd (snd (location_should_be (mock_engine ''https://other.com'') ''https://example.com''
          (started_bridge, started_world)))) = 0 \<and>
   fst (close_browser silent_engine (started_bridge, started_world)) = Inl RpcError \<and>
   trace (snd (snd (close_browser silent_engine (started_bridge, started_world))))
     = trace started_world @
       [Poll 0 None, InsecureChannel 1 ''localhost:7'', Rpc 1 CloseBrowser Empty None] \<and>
   closes 1 (snd (snd (close_browser silent_engine (started_bridge, started_world)))) = 0"
proof -
  have r: "reply (mock_engine x) k GetUrl Empty = Some \<lparr>log = ''done'', body = x\<rparr>" for x k
    by (simp add: mock_engine_def)
  have e: "insecure_stub_enter silent_engine (started_bridge, started_world) =
     (Inr 1, started_bridge,
      started_world\<lparr>trace := trace started_world @ [Poll 0 None, InsecureChannel 1 ''localhost:7''],
                    polls := 1, channels := 2\<rparr>)"
  proof -
    have "cached_process started_bridge = Some 0"
      by (simp add: started_bridge_def)
    moreover have "returncode silent_engine (polls started_world) = None"
      by (simp add: silent_engine_def mock_engine_def)
    ultimately show ?thesis
      by (simp add: insecure_stub_enter_alive started_bridge_def started_world_def fmt_port_def)
  qed
  have n: "reply silent_engine k m q = None" for k m q
    by (simp add: silent_engine_def)
  note L = location_should_be_answered [OF started_enter r, of "''https://other.com''" "''https://example.com''"]
  have C: "close_browser silent_engine (started_bridge, started_world) =
     (Inl RpcError, started_bridge,
      started_world\<lparr>trace := trace started_world @
          [Poll 0 None, InsecureChannel 1 ''localhost:7'', Rpc 1 CloseBrowser Empty None],
        polls := 1, channels := 2, rpcs := Suc (rpcs started_world)\<rparr>)"
    by (simp add: close_browser_def call_and_log_session [OF e] n)
  show ?thesis
    unfolding L C by (simp add: closes_def started_world_def)
qed

subsection \<open>What a keyword does besides starting the process\<close>

lemma session_stepI:
  assumes "b' = b" "ports w' = ports w" "spawned w' = spawned w"
    "trace w' = trace w @ es" "\<forall>e\<in>set es. is_session_event e"
  shows "session_step (b, w) (b', w')"
  using assms by (simp add: session_step_def list_all_iff)

lemma session_stepD:
  assumes "session_step (b, w) (b', w')"
  shows "b' = b" "ports w' = ports w" "spawned w' = spawned w"
    "\<exists>es. trace w' = trace w @ es \<and> (\<forall>e\<in>set es. is_session_event e)"
proof -
  from assms show "b' = b" "ports w' = ports w" "spawned w' = spawned w"
    by (simp_all add: session_step_def)
  from assms obtain es where es: "trace w' = trace w @ es"
    by (auto simp: session_step_def prefix_def)
  with assms have "\<forall>e\<in>set es. is_session_event e"
    by (simp add: session_step_def list_all_iff)
  with es show "\<exists>es. trace w' = trace w @ es \<and> (\<forall>e\<in>set es. is_session_event e)"
    by blast
qed

lemma session_step_refl: "session_step s s"
proof (cases s)
  case (Pair b w)
  show ?thesis
    unfolding Pair by (rule session_stepI [where es = "[]"]) simp_all
qed

lemma session_step_trans:
  assumes "session_step s s'" and "session_step s' s''"
  shows "session_step s s''"
proof -
  obtain b w b' w' b'' w'' where s: "s = (b, w)" "s' = (b', w')" "s'' = (b'', w'')"
    by (cases s, cases s', cases s'') auto
  from session_stepD [OF assms(1) [unfolded s]] session_stepD [OF assms(2) [unfolded s]]
  obtain es es' where "trace w' = trace w @ es" "\<forall>e\<in>set es. is_session_event e"
    "trace w'' = trace w' @ es'" "\<forall>e\<in>set es'. is_session_event e"
    and eqs: "b' = b" "b'' = b'" "ports w' = ports w" "ports w'' = ports w'"
      "spawned w' = spawned w" "spawned w'' = spawned w'"
    by blast
  then have "trace w'' = trace w @ (es @ es')" "\<forall>e\<in>set (es @ es'). is_session_event e"
    by auto
  with eqs show ?thesis
    unfolding s by (intro session_stepI) auto
qed

lemma session_step_popens:
  assumes "session_step (b, w) (b', w')"
  shows "popens w' = popens w"
proof -
  from session_stepD(4) [OF assms] obtain es
    where es: "trace w' = trace w @ es" "\<forall>e\<in>set es. is_session_event e"
    by blast
  have "filter is_Popen es = []"
  proof (rule filter_False, rule ballI)
    fix e assume "e \<in> set es"
    with es(2) have "is_session_event e" by blast
    then show "\<not> is_Popen e" by (cases e) auto
  qed
  with es(1) show ?thesis
    by (simp add: popens_def)
qed

lemma session_step_emit:
  "is_session_event e \<Longrightarrow> session_step (b, w) (b, emit e w)"
  by (rule session_stepI [where es = "[e]"]) simp_all

lemma session_step_poll: "session_step (b, w) (b, snd (poll E h w))"
  by (rule session_stepI [where es = "[Poll h (returncode E (polls w))]"])
    (simp_all add: poll_def Let_def)

lemma session_step_insecure_channel: "session_step (b, w) (b, snd (insecure_channel t w))"
  by (rule session_stepI [where es = "[InsecureChannel (channels w) t]"])
    (simp_all add: insecure_channel_def)

lemma session_step_channel_close: "session_step (b, w) (b, channel_close c w)"
  by (simp add: channel_close_def session_step_emit)

lemma session_step_logger_info: "session_step (b, w) (b, logger_info x w)"
  by (simp add: logger_info_def session_step_emit)

lemma session_step_logger_debug: "session_step (b, w) (b, logger_debug x w)"
  by (simp add: logger_debug_def session_step_emit)

lemma session_step_kill: "session_step (b, w) (b, kill h w)"
  by (simp add: kill_def session_step_emit)

lemma session_step_call: "session_step s (snd (call E c m q s))"
proof (cases s)
  case (Pair b w)
  have "session_step (b, w) (b, w\<lparr>trace := trace w @ [Rpc c m q (reply E (rpcs w) m q)], rpcs := Suc (rpcs w)\<rparr>)"
    by (rule session_stepI [where es = "[Rpc c m q (reply E (rpcs w) m q)]"]) simp_all
  with Pair show ?thesis
    by (simp add: call_answer)
qed

lemma session_step_call_and_log: "session_step s (snd (call_and_log E m q c s))"
proof -
  obtain r b1 w1 where run: "call E c m q s = (r, b1, w1)"
    by (cases "call E c m q s")
  with session_step_call [of s E c m q] have 1: "session_step s (b1, w1)"
    by simp
  show ?thesis
  proof (cases r)
    case (Inl e)
    with run 1 show ?thesis
      by (simp add: call_and_log_def)
  next
    case (Inr resp)
    from 1 session_step_logger_info [of b1 w1 "log resp"]
    have "session_step s (b1, logger_info (log resp) w1)"
      by (rule session_step_trans)
    with run Inr show ?thesis
      by (simp add: call_and_log_def)
  qed
qed

lemma session_step_location_should_be_block:
  "session_step s (snd (location_should_be_block E u c s))"
  using session_step_call [of s E c GetUrl Empty]
  by (cases "call E c GetUrl Empty s")
    (auto simp: location_should_be_block_def Let_def split: sum.splits)

lemma session_step_logged:
  assumes "call E c m q s = (Inr resp, b1, w1)"
  shows "session_step s (b1, logger_info (log resp) w1)"
proof -
  from session_step_call [of s E c m q] assms have "session_step s (b1, w1)"
    by simp
  then show ?thesis
    using session_step_logger_info by (rule session_step_trans)
qed

lemma session_step_textfield_value_should_be_block:
  "session_step s (snd (textfield_value_should_be_block E sel text c s))"
  using session_step_call [of s E c GetInputValue "selectorRequest sel"]
  by (cases "call E c GetInputValue (selectorRequest sel) s")
    (auto simp: textfield_value_should_be_block_def Let_def session_step_logged split: sum.splits)

lemma session_step_title_should_be_block:
  "session_step s (snd (title_should_be_block E title c s))"
  using session_step_call [of s E c GetTitle Empty]
  by (cases "call E c GetTitle Empty s")
    (auto simp: title_should_be_block_def Let_def session_step_logged split: sum.splits)

lemma session_step_page_should_contain_block:
  "session_step s (snd (page_should_contain_block E text c s))"
  using session_step_call [of s E c GetTextContent "selectorRequest (''text='' @ text)"]
  by (cases "call E c GetTextContent (selectorRequest (''text='' @ text)) s")
    (auto simp: page_should_contain_block_def Let_def session_step_logged split: sum.splits)

lemma session_step_exit:
  assumes "session_step s (snd r)"
  shows "session_step s (snd (insecure_stub_exit c r))"
proof (cases r)
  case (fields x b w)
  show ?thesis
  proof (cases x)
    case (Inl e)
    with fields assms show ?thesis
      by (simp add: insecure_stub_exit_def)
  next
    case (Inr v)
    from assms fields have "session_step s (b, w)"
      by simp
    then have "session_step s (b, channel_close c w)"
      using session_step_channel_close by (rule session_step_trans)
    with fields Inr show ?thesis
      by (simp add: insecure_stub_exit_def)
  qed
qed

text \<open>What a session does after the process has been obtained.\<close>

lemma insecure_stub_shape:
  assumes block: "\<And>c s. session_step s (snd (block c s))"
  shows "case playwright_process E s of
           (Inl e, s1) \<Rightarrow> insecure_stub E block s = (Inl e, s1)
         | (Inr h, s1) \<Rightarrow> session_step s1 (snd (insecure_stub E block s))"
proof (cases "playwright_process E s")
  case (fields x b1 w1)
  show ?thesis
  proof (cases x)
    case (Inl e)
    with fields show ?thesis
      by (simp add: insecure_stub_def insecure_stub_enter_def)
  next
    case (Inr h)
    let ?w2 = "snd (poll E h w1)"
    have p: "session_step (b1, w1) (b1, ?w2)"
      by (rule session_step_poll)
    show ?thesis
    proof (cases "returncode E (polls w1)")
      case (Some rc)
      with fields Inr p show ?thesis
        by (simp add: insecure_stub_def insecure_stub_enter_def poll_def Let_def)
    next
      case None
      let ?t = "''localhost:'' @ fmt_port (port b1)"
      let ?w3 = "snd (insecure_channel ?t ?w2)"
      let ?c = "channels ?w2"
      have "session_step (b1, ?w2) (b1, ?w3)"
        by (rule session_step_insecure_channel)
      with p have "session_step (b1, w1) (b1, ?w3)"
        by (rule session_step_trans)
      then have "session_step (b1, w1) (snd (block ?c (b1, ?w3)))"
        using block by (rule session_step_trans)
      then have "session_step (b1, w1) (snd (insecure_stub_exit ?c (block ?c (b1, ?w3))))"
        by (rule session_step_exit)
      moreover have "insecure_stub E block s = insecure_stub_exit ?c (block ?c (b1, ?w3))"
        using fields Inr None
        by (simp add: insecure_stub_def insecure_stub_enter_def poll_def insecure_channel_def Let_def)
      ultimately show ?thesis
        using fields Inr by simp
    qed
  qed
qed

lemma session_shape:
  assumes "\<And>c s. session_step s (snd (block c s))"
      and "run E k (b, w) = insecure_stub E block (b, w)"
  shows "\<exists>w0. session_step (b, w) (b, w0) \<and> rpcs w0 = rpcs w \<and>
     (case playwright_process E (b, w0) of
        (Inl e, s1) \<Rightarrow> run E k (b, w) = (Inl e, s1)
      | (Inr h, s1) \<Rightarrow> session_step s1 (snd (run E k (b, w))))"
proof (intro exI [of _ w] conjI)
  show "session_step (b, w) (b, w)"
    by (rule session_step_refl)
  show "rpcs w = rpcs w"
    by simp
  show "case playwright_process E (b, w) of
        (Inl e, s1) \<Rightarrow> run E k (b, w) = (Inl e, s1)
      | (Inr h, s1) \<Rightarrow> session_step s1 (snd (run E k (b, w)))"
    unfolding assms(2) by (rule insecure_stub_shape) (rule assms(1))
qed

lemma run_shape:
  assumes "needs_process k"
  shows "\<exists>w0. session_step (b, w) (b, w0) \<and> rpcs w0 = rpcs w \<and>
     (case playwright_process E (b, w0) of
        (Inl e, s1) \<Rightarrow> run E k (b, w) = (Inl e, s1)
      | (Inr h, s1) \<Rightarrow> session_step s1 (snd (run E k (b, w))))"
proof (cases k)
  case Close
  let ?w0 = "logger_debug ''Closing Playwright process'' w"
  have 1: "session_step (b, w) (b, ?w0)"
    by (rule session_step_logger_debug)
  have 2: "rpcs ?w0 = rpcs w"
    by (simp add: logger_debug_def)
  have "case playwright_process E (b, ?w0) of
        (Inl e, s1) \<Rightarrow> close E (b, w) = (Inl e, s1)
      | (Inr h, s1) \<Rightarrow> session_step s1 (snd (close E (b, w)))"
  proof (cases "playwright_process E (b, ?w0)")
    case (fields x b2 w2)
    have "session_step (b2, w2) (b2, kill h w2)" for h
      by (rule session_step_kill)
    then have "session_step (b2, w2) (b2, logger_debug ''Playwright process killed'' (kill h w2))" for h
      using session_step_logger_debug by (rule session_step_trans)
    with fields show ?thesis
      by (cases x) (simp_all add: close_def Let_def)
  qed
  with 1 2 show ?thesis
    unfolding Close run.simps by (intro exI [of _ ?w0] conjI)
next
  case (Open_browser x u)
  with assms show ?thesis
    by (intro session_shape [OF session_step_call_and_log]) (simp add: open_browser_def Let_def)
next
  case Close_browser
  then show ?thesis
    by (intro session_shape [OF session_step_call_and_log]) (simp add: close_browser_def)
next
  case (Go_to u)
  then show ?thesis
    by (intro session_shape [OF session_step_call_and_log]) (simp add: go_to_def)
next
  case (Input_text sel x)
  then show ?thesis
    by (intro session_shape [OF session_step_call_and_log]) (simp add: input_text_def)
next
  case (Click_button sel)
  then show ?thesis
    by (intro session_shape [OF session_step_call_and_log]) (simp add: click_button_def)
next
  case (Location_should_be u)
  then show ?thesis
    by (intro session_shape [OF session_step_location_should_be_block])
      (simp add: location_should_be_def)
next
  case (Textfield_value_should_be sel x)
  then show ?thesis
    by (intro session_shape [OF session_step_textfield_value_should_be_block])
      (simp add: textfield_value_should_be_def)
next
  case (Title_should_be t)
  then show ?thesis
    by (intro session_shape [OF session_step_title_should_be_block])
      (simp add: title_should_be_def)
next
  case (Page_should_contain x)
  then show ?thesis
    by (intro session_shape [OF session_step_page_should_contain_block])
      (simp add: page_should_contain_def)
qed

subsection \<open>Keywords with and without a cached process\<close>

lemma startup_event_not_Kill: "is_startup_event e \<Longrightarrow> \<not> is_Kill e"
  by (cases e) auto

lemma startup_event_not_Popen: "is_startup_event e \<Longrightarrow> \<not> is_Popen e"
  by (cases e) auto

lemma playwright_process_uncached:
  assumes "cached_process b = None"
  shows "\<exists>ok w' es.
     playwright_process E (b, w) =
       (if ok then (Inr (spawned w),
                    b\<lparr>port := Some (str (free_port E (ports w))), cached_process := Some (spawned w)\<rparr>, w')
        else (Inl (RuntimeError (''Could not connect to the playwright process at port $''
                                 @ str (free_port E (ports w)))),
              b\<lparr>port := Some (str (free_port E (ports w)))\<rparr>, w')) \<and>
     trace w' = trace w @ [Log INFO (''Starting Playwright process '' @ path_to_script E), OpenLogfile,
                           FindFreePort (free_port E (ports w)),
                           Popen (spawned w) (str (free_port E (ports w)))] @ es \<and>
     (\<forall>e\<in>set es. is_startup_event e) \<and>
     ports w' = Suc (ports w) \<and> spawned w' = Suc (spawned w) \<and> polls w' = polls w \<and>
     (ok \<longleftrightarrow> (\<exists>k<50. reply E (rpcs w + k) Health Empty \<noteq> None))"
proof -
  let ?n = "free_port E (ports w)"
  let ?w4 = "w\<lparr>trace := trace w @ [Log INFO (''Starting Playwright process '' @ path_to_script E),
                                      OpenLogfile, FindFreePort ?n, Popen (spawned w) (str ?n)],
                 ports := Suc (ports w), spawned := Suc (spawned w)\<rparr>"
  obtain ok w5 where loop: "health_loop E 50 (Some (str ?n)) ?w4 = (ok, w5)"
    by (cases "health_loop E 50 (Some (str ?n)) ?w4")
  have run: "playwright_process E (b, w) =
      (if ok then (Inr (spawned w), b\<lparr>port := Some (str ?n), cached_process := Some (spawned w)\<rparr>, w5)
       else (Inl (RuntimeError (''Could not connect to the playwright process at port $'' @ str ?n)),
             b\<lparr>port := Some (str ?n)\<rparr>, w5))"
    unfolding playwright_process_start [OF assms] Let_def loop by simp
  from health_loop_frame [OF loop] obtain es where
    fr: "trace w5 = trace ?w4 @ es" "\<forall>e\<in>set es. is_startup_event e"
      "ports w5 = ports ?w4" "spawned w5 = spawned ?w4" "polls w5 = polls ?w4"
    by blast
  have "rpcs ?w4 = rpcs w"
    by simp
  with health_loop_probes [OF loop]
  have ok: "ok \<longleftrightarrow> (\<exists>k<50. reply E (rpcs w + k) Health Empty \<noteq> None)"
    by (cases ok) auto
  from fr have "trace w5 = trace w @ [Log INFO (''Starting Playwright process '' @ path_to_script E), OpenLogfile,
                           FindFreePort ?n, Popen (spawned w) (str ?n)] @ es"
    "ports w5 = Suc (ports w)" "spawned w5 = Suc (spawned w)" "polls w5 = polls w"
    by simp_all
  with run fr(2) ok show ?thesis
    by blast
qed

text \<open>A keyword that needs the process, called while none is cached.\<close>

lemma run_uncached:
  assumes "needs_process k" and "cached_process b = None"
  shows "\<exists>r b' w'. run E k (b, w) = (r, b', w') \<and>
     popens w' = popens w @ [Popen (spawned w) (str (free_port E (ports w)))] \<and>
     port b' = Some (str (free_port E (ports w))) \<and>
     (cached_process b' = None \<or> cached_process b' = Some (spawned w)) \<and>
     ports w' = Suc (ports w) \<and> spawned w' = Suc (spawned w)"
proof -
  let ?n = "free_port E (ports w)"
  from run_shape [OF assms(1), of b w E] obtain w0 where
    w0: "session_step (b, w) (b, w0)"
    and sh: "case playwright_process E (b, w0) of
        (Inl e, s1) \<Rightarrow> run E k (b, w) = (Inl e, s1)
      | (Inr h, s1) \<Rightarrow> session_step s1 (snd (run E k (b, w)))"
    by (elim exE conjE) (rule that)
  from session_stepD [OF w0] session_step_popens [OF w0]
  have same: "ports w0 = ports w" "spawned w0 = spawned w" "popens w0 = popens w"
    by simp_all
  from playwright_process_uncached [OF assms(2), of E w0, unfolded same]
  obtain ok w1 es where
    pp: "playwright_process E (b, w0) =
       (if ok then (Inr (spawned w), b\<lparr>port := Some (str ?n), cached_process := Some (spawned w)\<rparr>, w1)
        else (Inl (RuntimeError (''Could not connect to the playwright process at port $'' @ str ?n)),
              b\<lparr>port := Some (str ?n)\<rparr>, w1))"
    and tr: "trace w1 = trace w0 @ [Log INFO (''Starting Playwright process '' @ path_to_script E), OpenLogfile,
                           FindFreePort ?n, Popen (spawned w) (str ?n)] @ es"
      "\<forall>e\<in>set es. is_startup_event e"
    and cnt: "ports w1 = Suc (ports w)" "spawned w1 = Suc (spawned w)"
    by blast
  have "filter is_Popen es = []"
    using tr(2) by (intro filter_False ballI) (auto dest: startup_event_not_Popen)
  with tr(1) same(3) have p1: "popens w1 = popens w @ [Popen (spawned w) (str ?n)]"
    by (simp add: popens_def)
  show ?thesis
  proof (cases ok)
    case False
    with pp sh have "run E k (b, w) =
        (Inl (RuntimeError (''Could not connect to the playwright process at port $'' @ str ?n)),
         b\<lparr>port := Some (str ?n)\<rparr>, w1)"
      by simp
    with p1 cnt assms(2) show ?thesis
      by simp
  next
    case True
    obtain r b' w' where run: "run E k (b, w) = (r, b', w')"
      by (cases "run E k (b, w)")
    with True pp sh
    have st: "session_step (b\<lparr>port := Some (str ?n), cached_process := Some (spawned w)\<rparr>, w1) (b', w')"
      by simp
    from session_stepD [OF st] session_step_popens [OF st] run p1 cnt show ?thesis
      by simp
  qed
qed

text \<open>A keyword called while a process is cached.\<close>

lemma run_cached:
  assumes "cached_process b = Some h"
  shows "\<exists>r w'. run E k (b, w) = (r, b, w') \<and> popens w' = popens w \<and>
     ports w' = ports w \<and> spawned w' = spawned w"
proof (cases "needs_process k")
  case False
  then obtain x u where k: "k = Open_browser x u" and "strip (lower x) \<notin> set SUPPORTED_BROWSERS"
    by (cases k) auto
  then show ?thesis
    by (simp add: open_browser_def Let_def)
next
  case True
  from run_shape [OF True, of b w E] obtain w0 where
    w0: "session_step (b, w) (b, w0)"
    and sh: "case playwright_process E (b, w0) of
        (Inl e, s1) \<Rightarrow> run E k (b, w) = (Inl e, s1)
      | (Inr h, s1) \<Rightarrow> session_step s1 (snd (run E k (b, w)))"
    by (elim exE conjE) (rule that)
  obtain r b' w' where run: "run E k (b, w) = (r, b', w')"
    by (cases "run E k (b, w)")
  with sh have "session_step (b, w0) (b', w')"
    by (simp add: playwright_process_cached [OF assms])
  with w0 have st: "session_step (b, w) (b', w')"
    by (rule session_step_trans)
  from session_stepD [OF st] session_step_popens [OF st] run show ?thesis
    by simp
qed

lemma run_all_cached:
  assumes "cached_process b = Some h"
  shows "\<exists>w'. run_all E ks (b, w) = (b, w') \<and> popens w' = popens w \<and>
     ports w' = ports w \<and> spawned w' = spawned w"
proof (induction ks arbitrary: w)
  case Nil
  then show ?case by simp
next
  case (Cons k ks)
  from run_cached [OF assms, of E k w] obtain r w1 where
    1: "run E k (b, w) = (r, b, w1)" "popens w1 = popens w" "ports w1 = ports w" "spawned w1 = spawned w"
    by blast
  from Cons.IH [of w1] obtain w' where
    "run_all E ks (b, w1) = (b, w')" "popens w' = popens w1" "ports w' = ports w1" "spawned w' = spawned w1"
    by blast
  with 1 show ?case
    by simp
qed

subsection \<open>A start that times out\<close>



subsection \<open>The outcome of a first start\<close>

lemma str_8: "str 8 = ''8''"
  by (simp add: str.simps) code_simp

lemma startup_event_not_debug: "is_startup_event e \<Longrightarrow> e \<noteq> Log DEBUG s"
  by (cases e) auto

lemma playwright_process_timeout_rpcs:
  assumes "cached_process b = None"
      and "\<not> (\<exists>i<50. reply E (rpcs w + i) Health Empty \<noteq> None)"
  shows "rpcs (snd (snd (playwright_process E (b, w)))) = rpcs w + 50"
proof -
  let ?n = "free_port E (ports w)"
  let ?w4 = "w\<lparr>trace := trace w @ [Log INFO (''Starting Playwright process '' @ path_to_script E),
                                      OpenLogfile, FindFreePort ?n, Popen (spawned w) (str ?n)],
                 ports := Suc (ports w), spawned := Suc (spawned w)\<rparr>"
  obtain ok w5 where loop: "health_loop E 50 (Some (str ?n)) ?w4 = (ok, w5)"
    by (cases "health_loop E 50 (Some (str ?n)) ?w4")
  have same: "rpcs ?w4 = rpcs w"
    by simp
  note facts = health_loop_probes [OF loop, unfolded same]
  from facts assms(2) have "\<not> ok"
    by (cases ok) auto
  with facts have "rpcs w5 = rpcs w + 50"
    by simp
  moreover have "snd (snd (playwright_process E (b, w))) = w5"
    unfolding playwright_process_start [OF assms(1)] Let_def loop by simp
  ultimately show ?thesis
    by simp
qed

text \<open>
  A keyword that needs the process, called while none is cached, told apart by whether
  one of the 50 probes of its start is answered.
\<close>

lemma run_uncached_outcome:
  assumes "needs_process k" and "cached_process b = None"
  shows "(\<exists>i<50. reply E (rpcs w + i) Health Empty \<noteq> None) \<longrightarrow>
           fst (snd (run E k (b, w))) =
             b\<lparr>port := Some (str (free_port E (ports w))), cached_process := Some (spawned w)\<rparr>"
    and "\<not> (\<exists>i<50. reply E (rpcs w + i) Health Empty \<noteq> None) \<longrightarrow>
           run E k (b, w) =
             (Inl (RuntimeError (''Could not connect to the playwright process at port $''
                                 @ str (free_port E (ports w)))),
              b\<lparr>port := Some (str (free_port E (ports w)))\<rparr>, snd (snd (run E k (b, w)))) \<and>
           rpcs (snd (snd (run E k (b, w)))) = rpcs w + 50"
proof -
  let ?n = "free_port E (ports w)"
  from run_shape [OF assms(1), of b w E] obtain w0 where
    w0: "session_step (b, w) (b, w0)" and r0: "rpcs w0 = rpcs w"
    and sh: "case playwright_process E (b, w0) of
        (Inl e, s1) \<Rightarrow> run E k (b, w) = (Inl e, s1)
      | (Inr h, s1) \<Rightarrow> session_step s1 (snd (run E k (b, w)))"
    by (elim exE conjE) (rule that)
  from session_stepD [OF w0]
  have same: "ports w0 = ports w" "spawned w0 = spawned w"
    by simp_all
  from playwright_process_uncached [OF assms(2), of E w0, unfolded same r0]
  obtain ok w1 where
    pp: "playwright_process E (b, w0) =
       (if ok then (Inr (spawned w), b\<lparr>port := Some (str ?n), cached_process := Some (spawned w)\<rparr>, w1)
        else (Inl (RuntimeError (''Could not connect to the playwright process at port $'' @ str ?n)),
              b\<lparr>port := Some (str ?n)\<rparr>, w1))"
    and ok: "ok \<longleftrightarrow> (\<exists>k<50. reply E (rpcs w + k) Health Empty \<noteq> None)"
    by blast
  show "(\<exists>i<50. reply E (rpcs w + i) Health Empty \<noteq> None) \<longrightarrow>
           fst (snd (run E k (b, w))) =
             b\<lparr>port := Some (str ?n), cached_process := Some (spawned w)\<rparr>"
  proof
    assume "\<exists>i<50. reply E (rpcs w + i) Health Empty \<noteq> None"
    with ok have ok
      by simp
    obtain r b' w' where run: "run E k (b, w) = (r, b', w')"
      by (cases "run E k (b, w)")
    with \<open>ok\<close> pp sh
    have st: "session_step (b\<lparr>port := Some (str ?n), cached_process := Some (spawned w)\<rparr>, w1) (b', w')"
      by simp
    from session_stepD(1) [OF st] run
    show "fst (snd (run E k (b, w))) = b\<lparr>port := Some (str ?n), cached_process := Some (spawned w)\<rparr>"
      by simp
  qed
  show "\<not> (\<exists>i<50. reply E (rpcs w + i) Health Empty \<noteq> None) \<longrightarrow>
           run E k (b, w) =
             (Inl (RuntimeError (''Could not connect to the playwright process at port $'' @ str ?n)),
              b\<lparr>port := Some (str ?n)\<rparr>, snd (snd (run E k (b, w)))) \<and>
           rpcs (snd (snd (run E k (b, w)))) = rpcs w + 50"
  proof
    assume no: "\<not> (\<exists>i<50. reply E (rpcs w + i) Health Empty \<noteq> None)"
    with ok have "\<not> ok"
      by simp
    with pp sh have run: "run E k (b, w) =
        (Inl (RuntimeError (''Could not connect to the playwright process at port $'' @ str ?n)),
         b\<lparr>port := Some (str ?n)\<rparr>, w1)"
      by simp
    from no have "\<not> (\<exists>i<50. reply E (rpcs w0 + i) Health Empty \<noteq> None)"
      by (simp add: r0)
    from playwright_process_timeout_rpcs [OF assms(2) this] pp \<open>\<not> ok\<close>
    have "rpcs w1 = rpcs w + 50"
      by (simp add: r0)
    with run show "run E k (b, w) =
             (Inl (RuntimeError (''Could not connect to the playwright process at port $'' @ str ?n)),
              b\<lparr>port := Some (str ?n)\<rparr>, snd (snd (run E k (b, w)))) \<and>
           rpcs (snd (snd (run E k (b, w)))) = rpcs w + 50"
      by simp
  qed
qed

subsection \<open>\<^verbatim>\<open>_close\<close>\<close>

lemma close_cached:
  assumes "cached_process b = Some h"
  shows "close E (b, w) =
     (Inr (), b, w\<lparr>trace := trace w @ [Log DEBUG ''Closing Playwright process'', Kill h,
                                       Log DEBUG ''Playwright process killed'']\<rparr>)"
  by (cases w)
    (simp add: close_def Let_def playwright_process_cached [OF assms] logger_debug_def kill_def emit_def)

text \<open>
  C8, as stated, says that \<^verbatim>\<open>_close\<close> never creates a process. It reads
  \<^verbatim>\<open>self._playwright_process\<close>, the cached property, so on an instance that has not
  started a process yet it starts one: the trace of \<^verbatim>\<open>_close\<close> on a new instance has
  a \<^verbatim>\<open>Popen\<close>.
\<close>

theorem close_spawns_counterexample:
  "cached_process new_bridge = None \<and>
   popens (snd (snd (close (mock_engine []) (new_bridge, new_world)))) = [Popen 0 ''7'']"
proof -
  have h: "cached_process new_bridge = None"
    by (simp add: new_bridge_def)
  have n: "needs_process Close"
    by simp
  from run_uncached [OF n h, of "mock_engine []" new_world]
  have "popens (snd (snd (close (mock_engine []) (new_bridge, new_world)))) =
     popens new_world @ [Popen (spawned new_world) (str (free_port (mock_engine []) (ports new_world)))]"
    by auto
  then show ?thesis
    using h by (simp add: new_world_def popens_def mock_engine_def str_7)
qed

text \<open>
  C8, amended. With a process in the cache, \<^verbatim>\<open>_close\<close> logs, kills that process and
  logs again, and that is all: the instance is unchanged and nothing is created; a
  second call does the same three things once more, on the same handle. With no
  process in the cache, \<^verbatim>\<open>_close\<close> logs and then runs the initializer, which creates
  exactly one process. If a probe is answered, that process is cached and killed and
  then the second message is logged, as the last event and only there. If none is, the
  \<^verbatim>\<open>RuntimeError\<close> is raised, nothing is cached, nothing is killed and the second
  message is not logged.
\<close>

theorem close_kills_process:
  "(cached_process b = Some h \<longrightarrow>
      close E (b, w) =
        (Inr (), b, w\<lparr>trace := trace w @ [Log DEBUG ''Closing Playwright process'', Kill h,
                                          Log DEBUG ''Playwright process killed'']\<rparr>) \<and>
      close E (snd (close E (b, w))) =
        (Inr (), b, w\<lparr>trace := trace w @ [Log DEBUG ''Closing Playwright process'', Kill h,
                                          Log DEBUG ''Playwright process killed'',
                                          Log DEBUG ''Closing Playwright process'', Kill h,
                                          Log DEBUG ''Playwright process killed'']\<rparr>)) \<and>
   (cached_process b = None \<longrightarrow>
      popens (snd (snd (close E (b, w)))) =
        popens w @ [Popen (spawned w) (str (free_port E (ports w)))] \<and>
      ((\<exists>k<50. reply E (rpcs w + k) Health Empty \<noteq> None) \<longrightarrow>
         fst (close E (b, w)) = Inr () \<and>
         cached_process (fst (snd (close E (b, w)))) = Some (spawned w) \<and>
         (\<exists>es. trace (snd (snd (close E (b, w)))) =
                 trace w @ [Log DEBUG ''Closing Playwright process''] @ es @
                 [Kill (spawned w), Log DEBUG ''Playwright process killed''] \<and>
               (\<forall>e\<in>set es. \<not> is_Kill e \<and> e \<noteq> Log DEBUG ''Playwright process killed''))) \<and>
      (\<not> (\<exists>k<50. reply E (rpcs w + k) Health Empty \<noteq> None) \<longrightarrow>
         fst (close E (b, w)) =
           Inl (RuntimeError (''Could not connect to the playwright process at port $''
                              @ str (free_port E (ports w)))) \<and>
         cached_process (fst (snd (close E (b, w)))) = None \<and>
         (\<exists>es. trace (snd (snd (close E (b, w)))) =
                 trace w @ [Log DEBUG ''Closing Playwright process''] @ es \<and>
               (\<forall>e\<in>set es. \<not> is_Kill e \<and> e \<noteq> Log DEBUG ''Playwright process killed''))))"
proof (intro conjI impI)
  assume c: "cached_process b = Some h"
  show "close E (b, w) =
        (Inr (), b, w\<lparr>trace := trace w @ [Log DEBUG ''Closing Playwright process'', Kill h,
                                          Log DEBUG ''Playwright process killed'']\<rparr>)"
    by (rule close_cached [OF c])
  show "close E (snd (close E (b, w))) =
        (Inr (), b, w\<lparr>trace := trace w @ [Log DEBUG ''Closing Playwright process'', Kill h,
                                          Log DEBUG ''Playwright process killed'',
                                          Log DEBUG ''Closing Playwright process'', Kill h,
                                          Log DEBUG ''Playwright process killed'']\<rparr>)"
    by (simp add: close_cached [OF c])
next
  assume c: "cached_process b = None"
  have n: "needs_process Close"
    by simp
  from run_uncached [OF n c, of E w]
  show "popens (snd (snd (close E (b, w)))) =
        popens w @ [Popen (spawned w) (str (free_port E (ports w)))]"
    by auto
next
  assume c: "cached_process b = None"
  let ?n = "free_port E (ports w)"
  let ?w0 = "logger_debug ''Closing Playwright process'' w"
  have same: "ports ?w0 = ports w" "spawned ?w0 = spawned w" "rpcs ?w0 = rpcs w"
    "trace ?w0 = trace w @ [Log DEBUG ''Closing Playwright process'']"
    by (simp_all add: logger_debug_def)
  from playwright_process_uncached [OF c, of E ?w0, unfolded same]
  obtain ok w1 es where
    pp: "playwright_process E (b, ?w0) =
       (if ok then (Inr (spawned w), b\<lparr>port := Some (str ?n), cached_process := Some (spawned w)\<rparr>, w1)
        else (Inl (RuntimeError (''Could not connect to the playwright process at port $'' @ str ?n)),
              b\<lparr>port := Some (str ?n)\<rparr>, w1))"
    and tr: "trace w1 = (trace w @ [Log DEBUG ''Closing Playwright process'']) @
               [Log INFO (''Starting Playwright process '' @ path_to_script E), OpenLogfile,
                FindFreePort ?n, Popen (spawned w) (str ?n)] @ es"
      "\<forall>e\<in>set es. is_startup_event e"
    and ok: "ok \<longleftrightarrow> (\<exists>k<50. reply E (rpcs w + k) Health Empty \<noteq> None)"
    by blast
  let ?es = "[Log INFO (''Starting Playwright process '' @ path_to_script E), OpenLogfile,
                FindFreePort ?n, Popen (spawned w) (str ?n)] @ es"
  have nk: "\<forall>e\<in>set ?es. \<not> is_Kill e \<and> e \<noteq> Log DEBUG ''Playwright process killed''"
    using tr(2) by (auto dest: startup_event_not_Kill startup_event_not_debug)
  have tr': "trace w1 = trace w @ [Log DEBUG ''Closing Playwright process''] @ ?es"
    using tr(1) by simp
  {
    assume "\<exists>k<50. reply E (rpcs w + k) Health Empty \<noteq> None"
    with ok pp have run: "close E (b, w) =
        (Inr (), b\<lparr>port := Some (str ?n), cached_process := Some (spawned w)\<rparr>,
         logger_debug ''Playwright process killed'' (kill (spawned w) w1))"
      by (simp add: close_def Let_def)
    have "trace (snd (snd (close E (b, w)))) =
        trace w @ [Log DEBUG ''Closing Playwright process''] @ ?es @
          [Kill (spawned w), Log DEBUG ''Playwright process killed'']"
      unfolding run by (simp add: logger_debug_def kill_def tr')
    with nk have "\<exists>es. trace (snd (snd (close E (b, w)))) =
                 trace w @ [Log DEBUG ''Closing Playwright process''] @ es @
                 [Kill (spawned w), Log DEBUG ''Playwright process killed''] \<and>
               (\<forall>e\<in>set es. \<not> is_Kill e \<and> e \<noteq> Log DEBUG ''Playwright process killed'')"
      by blast
    with run show "fst (close E (b, w)) = Inr ()"
      "cached_process (fst (snd (close E (b, w)))) = Some (spawned w)"
      "\<exists>es. trace (snd (snd (close E (b, w)))) =
                 trace w @ [Log DEBUG ''Closing Playwright process''] @ es @
                 [Kill (spawned w), Log DEBUG ''Playwright process killed''] \<and>
               (\<forall>e\<in>set es. \<not> is_Kill e \<and> e \<noteq> Log DEBUG ''Playwright process killed'')"
      by simp_all
  }
  {
    assume "\<not> (\<exists>k<50. reply E (rpcs w + k) Health Empty \<noteq> None)"
    with ok pp have run: "close E (b, w) =
        (Inl (RuntimeError (''Could not connect to the playwright process at port $'' @ str ?n)),
         b\<lparr>port := Some (str ?n)\<rparr>, w1)"
      by (simp add: close_def Let_def)
    from tr' nk have "\<exists>es. trace w1 = trace w @ [Log DEBUG ''Closing Playwright process''] @ es \<and>
               (\<forall>e\<in>set es. \<not> is_Kill e \<and> e \<noteq> Log DEBUG ''Playwright process killed'')"
      by blast
    with run c show "fst (close E (b, w)) =
           Inl (RuntimeError (''Could not connect to the playwright process at port $''
                              @ str (free_port E (ports w))))"
      "cached_process (fst (snd (close E (b, w)))) = None"
      "\<exists>es. trace (snd (snd (close E (b, w)))) =
                 trace w @ [Log DEBUG ''Closing Playwright process''] @ es \<and>
               (\<forall>e\<in>set es. \<not> is_Kill e \<and> e \<noteq> Log DEBUG ''Playwright process killed'')"
      by simp_all
  }
qed

text \<open>
  On a started instance, on a new one, and on a new one whose engine never answers:
  there the second message is not in the trace.
\<close>

theorem close_kills_process_witness:
  "cached_process started_bridge = Some 0 \<and>
   close (mock_engine []) (started_bridge, started_world) =
     (Inr (), started_bridge,
      started_world\<lparr>trace := trace started_world @
         [Log DEBUG ''Closing Playwright process'', Kill 0, Log DEBUG ''Playwright process killed'']\<rparr>) \<and>
   cached_process new_bridge = None \<and>
   (\<exists>k<50. reply (mock_engine []) (rpcs new_world + k) Health Empty \<noteq> None) \<and>
   fst (close (mock_engine []) (new_bridge, new_world)) = Inr () \<and>
   cached_process (fst (snd (close (mock_engine []) (new_bridge, new_world)))) = Some 0 \<and>
   \<not> (\<exists>k<50. reply silent_engine (rpcs new_world + k) Health Empty \<noteq> None) \<and>
   fst (close silent_engine (new_bridge, new_world)) =
     Inl (RuntimeError ''Could not connect to the playwright process at port $7'') \<and>
   Log DEBUG ''Playwright process killed''
     \<notin> set (trace (snd (snd (close silent_engine (new_bridge, new_world)))))"
proof -
  have h: "cached_process started_bridge = Some 0"
    by (simp add: started_bridge_def)
  have c: "cached_process new_bridge = None"
    by (simp add: new_bridge_def)
  have a: "\<exists>k<50. reply (mock_engine []) (rpcs new_world + k) Health Empty \<noteq> None"
    by (rule exI [of _ 0]) (simp add: mock_engine_def)
  have n: "\<not> (\<exists>k<50. reply silent_engine (rpcs new_world + k) Health Empty \<noteq> None)"
    by (simp add: silent_engine_def)
  have w: "ports new_world = 0" "spawned new_world = 0" "trace new_world = []"
    by (simp_all add: new_world_def)
  have f: "free_port silent_engine 0 = 7"
    by (simp add: silent_engine_def mock_engine_def)
  note T1 = close_kills_process [of started_bridge 0 "mock_engine []" started_world,
      THEN conjunct1, rule_format, OF h, THEN conjunct1]
  note T2 = close_kills_process [of new_bridge 0 "mock_engine []" new_world,
      THEN conjunct2, rule_format, OF c, THEN conjunct2, THEN conjunct1, rule_format, OF a]
  note T3 = close_kills_process [of new_bridge 0 silent_engine new_world,
      THEN conjunct2, rule_format, OF c, THEN conjunct2, THEN conjunct2, rule_format, OF n]
  from T3 have "Log DEBUG ''Playwright process killed''
     \<notin> set (trace (snd (snd (close silent_engine (new_bridge, new_world)))))"
    by (auto simp: w)
  then show ?thesis
    using h c a n T1 T2 T3 by (simp add: w f str_7)
qed

subsection \<open>One handle, one port\<close>

lemma handle_inv_run:
  assumes "handle_inv s"
  shows "handle_inv (snd (run E k s))"
proof -
  obtain b w where s: "s = (b, w)"
    by (cases s)
  show ?thesis
  proof (cases "cached_process b")
    case (Some h)
    from run_cached [OF Some, of E k w] obtain r w' where
      "run E k (b, w) = (r, b, w')" "popens w' = popens w"
      by blast
    with assms Some show ?thesis
      unfolding s by (auto simp: handle_inv_def popens_def split: list.splits event.splits)
  next
    case None
    show ?thesis
    proof (cases "needs_process k")
      case False
      then obtain x u where "k = Open_browser x u" "strip (lower x) \<notin> set SUPPORTED_BROWSERS"
        by (cases k) auto
      with assms show ?thesis
        by (simp add: open_browser_def Let_def)
    next
      case True
      from run_uncached [OF True None, of E w] obtain r b' w' where
        "run E k (b, w) = (r, b', w')"
        "popens w' = popens w @ [Popen (spawned w) (str (free_port E (ports w)))]"
        "port b' = Some (str (free_port E (ports w)))"
        "cached_process b' = None \<or> cached_process b' = Some (spawned w)"
        by blast
      then show ?thesis
        unfolding s by (auto simp: handle_inv_def popens_def)
    qed
  qed
qed

lemma handle_inv_run_all:
  "handle_inv s \<Longrightarrow> handle_inv (run_all E ks s)"
  by (induction ks arbitrary: s) (simp_all add: handle_inv_run)

text \<open>
  C4, as stated, says that the handle is created on the first call that needs it and
  that no later call creates a process. Against an engine that answers only after the
  first start has timed out, the first \<^verbatim>\<open>close_browser\<close> creates process 0 on port 7
  and caches nothing, and the second creates process 1 on port 8 and caches that one.
\<close>

theorem second_start_counterexample:
  "fst (snd (run late_engine Close_browser (new_bridge, new_world)))
     = \<lparr>port = Some ''7'', cached_process = None\<rparr> \<and>
   fst (run_all late_engine [Close_browser, Close_browser] (new_bridge, new_world))
     = \<lparr>port = Some ''8'', cached_process = Some 1\<rparr> \<and>
   popens (snd (run_all late_engine [Close_browser, Close_browser] (new_bridge, new_world)))
     = [Popen 0 ''7'', Popen 1 ''8'']"
proof -
  let ?b1 = "\<lparr>port = Some ''7'', cached_process = None\<rparr>"
  have n: "needs_process Close_browser"
    by simp
  have c0: "cached_process new_bridge = None"
    by (simp add: new_bridge_def)
  have w0: "ports new_world = 0" "spawned new_world = 0" "popens new_world = []" "rpcs new_world = 0"
    by (simp_all add: new_world_def popens_def)
  have f: "free_port late_engine k = 7 + k" for k
    by (simp add: late_engine_def mock_engine_def)
  have no: "\<not> (\<exists>i<50. reply late_engine (rpcs new_world + i) Health Empty \<noteq> None)"
    by (simp add: late_engine_def w0)
  obtain w1 where w1: "w1 = snd (snd (run late_engine Close_browser (new_bridge, new_world)))"
    by simp
  from run_uncached_outcome(2) [OF n c0, of late_engine new_world] no
  have r1: "run late_engine Close_browser (new_bridge, new_world) =
      (Inl (RuntimeError (''Could not connect to the playwright process at port $'' @ ''7'')), ?b1, w1)"
    and rp: "rpcs w1 = 50"
    by (simp_all add: w0 f str_7 w1 new_bridge_def)
  from run_uncached [OF n c0, of late_engine new_world] r1
  have s1: "popens w1 = [Popen 0 ''7'']" "ports w1 = 1" "spawned w1 = 1"
    by (simp_all add: w0 f str_7)
  have c1: "cached_process ?b1 = None"
    by simp
  have yes: "\<exists>i<50. reply late_engine (rpcs w1 + i) Health Empty \<noteq> None"
    by (rule exI [of _ 0]) (simp add: late_engine_def rp)
  from run_uncached_outcome(1) [OF n c1, of late_engine w1] yes
  have b2: "fst (snd (run late_engine Close_browser (?b1, w1))) = \<lparr>port = Some ''8'', cached_process = Some 1\<rparr>"
    by (simp add: s1 f str_8)
  from run_uncached [OF n c1, of late_engine w1]
  have p2: "popens (snd (snd (run late_engine Close_browser (?b1, w1)))) = [Popen 0 ''7'', Popen 1 ''8'']"
    by (auto simp: s1 f str_8)
  from r1 b2 p2 show ?thesis
    by simp
qed

text \<open>
  C4, amended. A new instance has no handle and has created no process. While there is
  no handle, a call that does not need the process changes nothing, and a call that
  needs it creates exactly one process. If one of the 50 probes of that start is
  answered, the call leaves the handle of that process in the cache and the port the
  process was given as the port of the instance; if none is, it raises the
  \<^verbatim>\<open>RuntimeError\<close>, keeps the port and caches nothing. Once there is a handle, every
  sequence of keyword calls leaves the instance as it is (the same handle, the same
  port) and creates no process. In every state reached from a new instance, the
  cached handle is that of the process created last, and the port is the one that
  process was given.
\<close>

theorem single_process_handle:
  "cached_process new_bridge = None \<and> popens new_world = [] \<and>
   (cached_process b = None \<longrightarrow> \<not> needs_process k \<longrightarrow> snd (run E k (b, w)) = (b, w)) \<and>
   (cached_process b = None \<longrightarrow> needs_process k \<longrightarrow>
      popens (snd (snd (run E k (b, w)))) =
        popens w @ [Popen (spawned w) (str (free_port E (ports w)))] \<and>
      ((\<exists>i<50. reply E (rpcs w + i) Health Empty \<noteq> None) \<longrightarrow>
         fst (snd (run E k (b, w))) =
           b\<lparr>port := Some (str (free_port E (ports w))), cached_process := Some (spawned w)\<rparr>) \<and>
      (\<not> (\<exists>i<50. reply E (rpcs w + i) Health Empty \<noteq> None) \<longrightarrow>
         fst (run E k (b, w)) =
           Inl (RuntimeError (''Could not connect to the playwright process at port $''
                              @ str (free_port E (ports w)))) \<and>
         fst (snd (run E k (b, w))) = b\<lparr>port := Some (str (free_port E (ports w)))\<rparr>)) \<and>
   (cached_process b = Some h \<longrightarrow>
      fst (run_all E ks (b, w)) = b \<and> popens (snd (run_all E ks (b, w))) = popens w) \<and>
   handle_inv (run_all E ks (new_bridge, new_world))"
proof (intro conjI impI)
  show "cached_process new_bridge = None"
    by (simp add: new_bridge_def)
  show "popens new_world = []"
    by (simp add: new_world_def popens_def)
  show "snd (run E k (b, w)) = (b, w)" if "\<not> needs_process k"
  proof -
    from that obtain x u where "k = Open_browser x u" "strip (lower x) \<notin> set SUPPORTED_BROWSERS"
      by (cases k) auto
    then show ?thesis
      by (simp add: open_browser_def Let_def)
  qed
  show "popens (snd (snd (run E k (b, w)))) =
        popens w @ [Popen (spawned w) (str (free_port E (ports w)))]"
    if "cached_process b = None" "needs_process k"
    using run_uncached [OF that(2,1), of E w] by auto
  show "fst (snd (run E k (b, w))) =
           b\<lparr>port := Some (str (free_port E (ports w))), cached_process := Some (spawned w)\<rparr>"
    if "cached_process b = None" "needs_process k"
      "\<exists>i<50. reply E (rpcs w + i) Health Empty \<noteq> None"
    using run_uncached_outcome(1) [OF that(2,1), of E w] that(3) by blast
  show "fst (run E k (b, w)) =
           Inl (RuntimeError (''Could not connect to the playwright process at port $''
                              @ str (free_port E (ports w))))"
    if "cached_process b = None" "needs_process k"
      "\<not> (\<exists>i<50. reply E (rpcs w + i) Health Empty \<noteq> None)"
    using run_uncached_outcome(2) [OF that(2,1), of E w, rule_format, OF that(3), THEN conjunct1]
    by (metis fst_conv)
  show "fst (snd (run E k (b, w))) = b\<lparr>port := Some (str (free_port E (ports w)))\<rparr>"
    if "cached_process b = None" "needs_process k"
      "\<not> (\<exists>i<50. reply E (rpcs w + i) Health Empty \<noteq> None)"
    using run_uncached_outcome(2) [OF that(2,1), of E w, rule_format, OF that(3), THEN conjunct1]
    by (metis fst_conv snd_conv)
  show "fst (run_all E ks (b, w)) = b" if "cached_process b = Some h"
    using run_all_cached [OF that, of E ks w] by auto
  show "popens (snd (run_all E ks (b, w))) = popens w" if "cached_process b = Some h"
    using run_all_cached [OF that, of E ks w] by auto
  have "handle_inv (new_bridge, new_world)"
    by (simp add: handle_inv_def new_bridge_def)
  then show "handle_inv (run_all E ks (new_bridge, new_world))"
    by (rule handle_inv_run_all)
qed

text \<open>
  A rejected browser name; a first navigation against an engine that answers, and
  against one that does not; and four keywords on a started instance.
\<close>

theorem single_process_handle_witness:
  "cached_process new_bridge = None \<and> \<not> needs_process (Open_browser ''IE'' None) \<and>
   snd (run (mock_engine []) (Open_browser ''IE'' None) (new_bridge, new_world)) = (new_bridge, new_world) \<and>
   needs_process (Go_to ''https://example.com'') \<and>
   (\<exists>i<50. reply (mock_engine []) (rpcs new_world + i) Health Empty \<noteq> None) \<and>
   popens (snd (snd (run (mock_engine []) (Go_to ''https://example.com'') (new_bridge, new_world))))
     = [Popen 0 ''7''] \<and>
   fst (snd (run (mock_engine []) (Go_to ''https://example.com'') (new_bridge, new_world)))
     = \<lparr>port = Some ''7'', cached_process = Some 0\<rparr> \<and>
   \<not> (\<exists>i<50. reply silent_engine (rpcs new_world + i) Health Empty \<noteq> None) \<and>
   fst (run silent_engine (Go_to ''https://example.com'') (new_bridge, new_world))
     = Inl (RuntimeError ''Could not connect to the playwright process at port $7'') \<and>
   fst (snd (run silent_engine (Go_to ''https://example.com'') (new_bridge, new_world)))
     = \<lparr>port = Some ''7'', cached_process = None\<rparr> \<and>
   cached_process started_bridge = Some 0 \<and>
   fst (run_all (mock_engine ''x'') [Go_to ''https://example.com'', Close, Title_should_be ''x'', Close_browser]
          (started_bridge, started_world)) = started_bridge \<and>
   popens (snd (run_all (mock_engine ''x'') [Go_to ''https://example.com'', Close, Title_should_be ''x'', Close_browser]
          (started_bridge, started_world))) = [Popen 0 ''7'']"
proof -
  have c: "cached_process new_bridge = None"
    by (simp add: new_bridge_def)
  have h: "cached_process started_bridge = Some 0"
    by (simp add: started_bridge_def)
  have i: "strip (lower ''IE'') = ''ie''"
    by code_simp
  have n: "\<not> needs_process (Open_browser ''IE'' None)"
    by (simp add: i SUPPORTED_BROWSERS_def)
  have g: "needs_process (Go_to ''https://example.com'')"
    by simp
  have a: "\<exists>i<50. reply (mock_engine []) (rpcs new_world + i) Health Empty \<noteq> None"
    by (rule exI [of _ 0]) (simp add: mock_engine_def)
  have s: "\<not> (\<exists>i<50. reply silent_engine (rpcs new_world + i) Health Empty \<noteq> None)"
    by (simp add: silent_engine_def)
  have w: "ports new_world = 0" "spawned new_world = 0" "popens new_world = []"
    "popens started_world = [Popen 0 ''7'']"
    by (simp_all add: new_world_def started_world_def popens_def)
  have f: "free_port (mock_engine []) 0 = 7" "free_port silent_engine 0 = 7"
    by (simp_all add: mock_engine_def silent_engine_def)
  note T1 = single_process_handle [where b = new_bridge and k = "Open_browser ''IE'' None"
        and E = "mock_engine []" and w = new_world,
      THEN conjunct2, THEN conjunct2, THEN conjunct1, rule_format, OF c n]
  note U = single_process_handle [where b = new_bridge and k = "Go_to ''https://example.com''"
        and E = "mock_engine []" and w = new_world,
      THEN conjunct2, THEN conjunct2, THEN conjunct2, THEN conjunct1, rule_format, OF c g]
  note T2 = U [THEN conjunct1]
  note T3 = U [THEN conjunct2, THEN conjunct1, rule_format, OF a]
  note T4 = single_process_handle [where b = new_bridge and k = "Go_to ''https://example.com''"
        and E = silent_engine and w = new_world,
      THEN conjunct2, THEN conjunct2, THEN conjunct2, THEN conjunct1, rule_format, OF c g,
      THEN conjunct2, THEN conjunct2, rule_format, OF s]
  note T5 = single_process_handle [where b = started_bridge and h = 0 and E = "mock_engine ''x''"
        and ks = "[Go_to ''https://example.com'', Close, Title_should_be ''x'', Close_browser]"
        and w = started_world,
      THEN conjunct2, THEN conjunct2, THEN conjunct2, THEN conjunct2, THEN conjunct1,
      rule_format, OF h]
  show ?thesis
    using c h n g a s T1 T2 T3 T4 T5 by (simp add: w f str_7 new_bridge_def)
qed

end
